theory Spec2Isabelle
  imports Complex_Main "HOL-Library.Multiset" "HOL-Library.Sublist" "HOL-Library.Log_Nat"
begin

section \<open>PredictionScope agent: data model\<close>

text \<open>
  The agent is TypeScript. Its arrays are modelled as lists and its objects as records
  with the fields their interfaces declare. Two objects of the same array are different
  objects even when all their fields agree; where the code compares objects by reference
  (\<open>selected.includes(o)\<close>) the model pairs every element with its position in the input
  array and compares the pairs.

  The numbers of the language are binary64. Prices, which the code subtracts and compares
  with a threshold, are modelled as binary64 numbers with the rounding of the
  subtraction. Scores and weights are exact reals and \<open>maxArticles\<close> is an integer:
  comparing two scores is exact in binary64, and the product \<open>maxArticles * weight\<close> is
  the exact product here, where the language rounds it to binary64 before \<open>Math.round\<close>.
\<close>

subsection \<open>Binary64 numbers\<close>

text \<open>
  A finite binary64 number, given by an integer mantissa and an exponent: \<open>Double m e\<close>
  is the number \<open>m * 2 ^ e\<close>. One number has several such pairs. The exponent is not
  bounded, and infinities and NaN are not modelled.
\<close>

datatype double = Double int int

fun dval :: "double \<Rightarrow> real" where
  "dval (Double m e) = (if 0 \<le> e then of_int m * 2 ^ nat e else of_int m / 2 ^ nat (- e))"

text \<open>\<open>a / 2 ^ k\<close> for \<open>a \<ge> 0\<close>, rounded to the nearest integer, a tie to the even
  one.\<close>

definition round_half_even :: "int \<Rightarrow> nat \<Rightarrow> int" where
  "round_half_even a k =
     (let q = a div 2 ^ k; r = a mod 2 ^ k
      in if 2 ^ k < 2 * r \<or> (2 * r = 2 ^ k \<and> odd q) then q + 1 else q)"

text \<open>The number \<open>m * 2 ^ e\<close> rounded to a mantissa of 53 bits, as every arithmetic
  operation of the language rounds its exact result.\<close>

definition round53 :: "int \<Rightarrow> int \<Rightarrow> double" where
  "round53 m e =
     (let k = bitlen \<bar>m\<bar> - 53
      in if k \<le> 0 then Double m e
         else Double (sgn m * round_half_even \<bar>m\<bar> (nat k)) (e + k))"

text \<open>\<open>x - y\<close>: the exact difference, rounded.\<close>

fun dsub :: "double \<Rightarrow> double \<Rightarrow> double" where
  "dsub (Double m1 e1) (Double m2 e2) =
     (let e = min e1 e2
      in round53 (m1 * 2 ^ nat (e1 - e) - m2 * 2 ^ nat (e2 - e)) e)"

text \<open>\<open>Math.abs\<close>, which is exact.\<close>

fun dabs :: "double \<Rightarrow> double" where
  "dabs (Double m e) = Double \<bar>m\<bar> e"

text \<open>The literal \<open>0.10\<close>: the binary64 number nearest to one tenth,
  \<open>7205759403792794 / 2 ^ 56\<close>.\<close>

definition literal_0_10 :: double where
  "literal_0_10 = Double 7205759403792794 (- 56)"

subsection \<open>agent/observe.ts: market data\<close>

datatype platform = Kalshi | Polymarket

text \<open>Field \<open>id\<close> of the source is \<open>m_id\<close> here; \<open>title\<close> and \<open>category\<close> carry the
  prefix \<open>m_\<close> because the opportunity record below has fields of the same names.\<close>

record MarketData =
  m_id :: string
  m_title :: string
  m_category :: string
  m_platform :: platform
  yes_price :: double
  volume :: real
  end_date :: "string option"
  url :: string

record Observations =
  kalshiMarkets :: "MarketData list"
  polymarketMarkets :: "MarketData list"
  movers :: "MarketData list"
  trendingTopics :: "string list"
  newsHeadlines :: "string list"
  timestamp :: string

subsection \<open>agent/analyze.ts: content opportunities\<close>

text \<open>The bucket of an opportunity is declared as a union of three literals, but the
  value is parsed from the scorer's JSON reply, so it is kept as the string it is.\<close>

record ContentOpportunity =
  title :: string
  slug :: string
  bucket :: string
  category :: string
  targetKeyword :: string
  secondaryKeywords :: "string list"
  score :: real
  reasoning :: string
  relevantMarkets :: "MarketData list"

subsection \<open>agent/decide.ts: configuration\<close>

datatype bucket_name = Educational | Topical | Affiliate

fun bucket_str :: "bucket_name \<Rightarrow> string" where
  "bucket_str Educational = ''educational''"
| "bucket_str Topical = ''topical''"
| "bucket_str Affiliate = ''affiliate''"

text \<open>An object with one field per bucket: the weights, and the target counts.\<close>

record 'a per_bucket =
  educational :: 'a
  topical :: 'a
  affiliate :: 'a

fun at_bucket :: "'a per_bucket \<Rightarrow> bucket_name \<Rightarrow> 'a" where
  "at_bucket r Educational = educational r"
| "at_bucket r Topical = topical r"
| "at_bucket r Affiliate = affiliate r"

record DecisionConfig =
  maxArticles :: int
  bucketWeights :: "real per_bucket"
  minScore :: real

definition DEFAULT_CONFIG :: DecisionConfig where
  "DEFAULT_CONFIG =
     \<lparr>maxArticles = 3,
      bucketWeights = \<lparr>educational = 0.5, topical = 0.35, affiliate = 0.15\<rparr>,
      minScore = 0.3\<rparr>"

text \<open>The weights of \<open>DEFAULT_CONFIG\<close>.\<close>

definition default_weights :: "real per_bucket" where
  "default_weights = \<lparr>educational = 0.5, topical = 0.35, affiliate = 0.15\<rparr>"

section \<open>agent/decide.ts: admission and allocation\<close>

text \<open>\<open>Math.round\<close> rounds to the nearest integer, a tie towards plus infinity.\<close>

definition js_round :: "real \<Rightarrow> int" where
  "js_round x = \<lfloor>x + 1 / 2\<rfloor>"

definition targetCounts :: "int \<Rightarrow> real per_bucket \<Rightarrow> int per_bucket" where
  "targetCounts maxA w =
     \<lparr>educational = max 1 (js_round (of_int maxA * educational w)),
      topical = max 0 (js_round (of_int maxA * topical w)),
      affiliate = max 0 (js_round (of_int maxA * affiliate w))\<rparr>"

text \<open>An element of the input array with its position, which stands for the object's
  identity.\<close>

type_synonym opp_ref = "nat \<times> ContentOpportunity"

text \<open>\<open>.sort((a, b) => b.score - a.score)\<close>: descending by score; the sort of the
  language is stable, and so is \<open>sort_key\<close>.\<close>

definition by_score_desc :: "opp_ref list \<Rightarrow> opp_ref list" where
  "by_score_desc xs = sort_key (\<lambda>r. - score (snd r)) xs"

text \<open>\<open>const viable = opportunities.filter(o => o.score >= minScore)\<close>\<close>

definition viable :: "ContentOpportunity list \<Rightarrow> real \<Rightarrow> opp_ref list" where
  "viable opportunities minS =
     filter (\<lambda>r. minS \<le> score (snd r)) (enumerate 0 opportunities)"

text \<open>The inner loop of the first pass, for one bucket: \<open>cnt\<close> is
  \<open>bucketCounts[bucket]\<close>, and both \<open>break\<close>s leave the loop with what was selected.\<close>

fun fill_bucket :: "int \<Rightarrow> int \<Rightarrow> opp_ref list \<Rightarrow> opp_ref list \<Rightarrow> nat \<Rightarrow> opp_ref list" where
  "fill_bucket target maxA [] selected cnt = selected"
| "fill_bucket target maxA (opp # bucketOpps) selected cnt =
     (if target \<le> int cnt then selected
      else if maxA \<le> int (length selected) then selected
      else fill_bucket target maxA bucketOpps (selected @ [opp]) (cnt + 1))"

text \<open>The first pass: the buckets in the order educational, topical, affiliate.\<close>

definition first_pass :: "int \<Rightarrow> int per_bucket \<Rightarrow> opp_ref list \<Rightarrow> opp_ref list" where
  "first_pass maxA targets vs =
     foldl (\<lambda>selected b.
              fill_bucket (at_bucket targets b) maxA
                (by_score_desc (filter (\<lambda>r. bucket (snd r) = bucket_str b) vs)) selected 0)
       [] [Educational, Topical, Affiliate]"

text \<open>The loop of the second pass.\<close>

fun fill_remaining :: "int \<Rightarrow> opp_ref list \<Rightarrow> opp_ref list \<Rightarrow> opp_ref list" where
  "fill_remaining maxA [] selected = selected"
| "fill_remaining maxA (opp # remaining) selected =
     (if maxA \<le> int (length selected) then selected
      else fill_remaining maxA remaining (selected @ [opp]))"

definition second_pass :: "int \<Rightarrow> opp_ref list \<Rightarrow> opp_ref list \<Rightarrow> opp_ref list" where
  "second_pass maxA vs selected =
     (if int (length selected) < maxA
      then fill_remaining maxA (by_score_desc (filter (\<lambda>r. r \<notin> set selected) vs)) selected
      else selected)"

definition decide_refs :: "ContentOpportunity list \<Rightarrow> DecisionConfig \<Rightarrow> opp_ref list" where
  "decide_refs opportunities cfg =
     (let vs = viable opportunities (minScore cfg) in
      if vs = [] then []
      else second_pass (maxArticles cfg) vs
             (first_pass (maxArticles cfg)
                (targetCounts (maxArticles cfg) (bucketWeights cfg)) vs))"

definition decide :: "ContentOpportunity list \<Rightarrow> DecisionConfig \<Rightarrow> ContentOpportunity list" where
  "decide opportunities cfg = map snd (decide_refs opportunities cfg)"

section \<open>agent/observe.ts: mover detection\<close>

fun platform_str :: "platform \<Rightarrow> string" where
  "platform_str Kalshi = ''kalshi''"
| "platform_str Polymarket = ''polymarket''"

text \<open>The key of \<open>previousMap\<close>: the template string \<open>${m.platform}:${m.id}\<close>.\<close>

definition market_key :: "MarketData \<Rightarrow> string" where
  "market_key m = platform_str (m_platform m) @ '':'' @ m_id m"

text \<open>\<open>new Map(entries)\<close>: the entries are set in order, so a later entry replaces an
  earlier one of the same key.\<close>

definition js_Map :: "('k \<times> 'v) list \<Rightarrow> ('k \<rightharpoonup> 'v)" where
  "js_Map entries = foldl (\<lambda>mp kv. mp(fst kv \<mapsto> snd kv)) Map.empty entries"

text \<open>\<open>Math.abs(m.yes_price - prev.yes_price) > 0.10\<close>, in binary64.\<close>

definition moved :: "double \<Rightarrow> double \<Rightarrow> bool" where
  "moved price prev_price =
     (let change = dabs (dsub price prev_price) in dval literal_0_10 < dval change)"

text \<open>\<open>previousSnapshot\<close> is \<open>None\<close> when the caller passes \<open>undefined\<close>. The parameter
  is declared an array of markets; a value of another shape is no input of this
  definition.\<close>

definition detectMovers :: "MarketData list \<Rightarrow> MarketData list option \<Rightarrow> MarketData list" where
  "detectMovers currentMarkets previousSnapshot =
     (case previousSnapshot of
        None \<Rightarrow> []
      | Some previous \<Rightarrow>
          let previousMap = js_Map (map (\<lambda>m. (market_key m, m)) previous) in
          filter (\<lambda>m. case previousMap (market_key m) of
                         None \<Rightarrow> False
                       | Some prev \<Rightarrow> moved (yes_price m) (yes_price prev))
            currentMarkets)"

section \<open>The world outside the code\<close>

text \<open>
  What the two language-model calls, the clock and the process environment answer during
  one run. The scorer's reply is \<open>None\<close> when the call or the parse of its reply throws;
  a recommendation comes with its \<open>relevantMarketIds\<close>. The generator's reply is the
  article text after the code fences are stripped and the text trimmed, with the word
  count the code computes from it, or \<open>None\<close> when \<open>create\<close> throws. The clock is read at
  several points of a run; every reading is \<open>now\<close>.
\<close>

record env =
  scorer :: "Observations \<Rightarrow> string list \<Rightarrow> (ContentOpportunity \<times> string list) list option"
  generator :: "ContentOpportunity \<Rightarrow> (string \<times> nat) option"
  now :: string
  elapsed :: real
  CI :: bool
  git_ok :: bool
  GITHUB_TOKEN :: bool

section \<open>Files\<close>

subsection \<open>agent/create.ts and agent/submit.ts: drafts and inventory entries\<close>

record DraftArticle =
  d_slug :: string
  d_bucket :: string
  d_category :: string
  content :: string
  d_title :: string
  d_targetKeyword :: string
  wordCount :: nat

record InventoryEntry =
  i_slug :: string
  i_title :: string
  i_bucket :: string
  i_category :: string
  i_targetKeyword :: string
  i_wordCount :: nat
  status :: string
  createdAt :: string

text \<open>One entry of \<open>data/decisions.json\<close>. The observation counts are (Kalshi markets,
  Polymarket markets, movers, trends); a selected assignment is (title, bucket, score);
  a produced draft is (slug, bucket, wordCount).\<close>

record DecisionLogEntry =
  log_timestamp :: string
  log_observations :: "nat \<times> nat \<times> nat \<times> nat"
  log_opportunities :: nat
  log_selected :: "(string \<times> string \<times> real) list"
  log_produced :: "(string \<times> string \<times> nat) list"
  elapsedSeconds :: real

subsection \<open>JSON files\<close>

text \<open>
  The value \<open>JSON.parse\<close> gives for a file that is meant to hold an array: \<open>null\<close>, a
  value that is neither \<open>null\<close> nor an array (a number, a string, a boolean, an object),
  or an array. The elements of an array are taken to be the records written to that
  file. \<open>JSON.parse (JSON.stringify v)\<close> is \<open>v\<close>.
\<close>

datatype 'a js = JNull | JOther | JArray 'a

text \<open>A file: missing, holding text that does not parse, or holding a JSON value.\<close>

datatype 'a json_file = Missing | Unparseable | Stored "'a js"

text \<open>
  The pattern \<open>let x = []; if (existsSync(path)) { try { x = JSON.parse(...) } catch
  { x = [] } }\<close> of \<open>updateInventory\<close> and of the decisions log: only a failing parse
  is caught, every value that parses is kept.
\<close>

fun read_array :: "'a list json_file \<Rightarrow> 'a list js" where
  "read_array Missing = JArray []"
| "read_array Unparseable = JArray []"
| "read_array (Stored v) = v"

datatype error = TypeError | GitError

datatype file_data =
    Text string
  | InventoryJson "InventoryEntry list js"
  | DecisionsJson "DecisionLogEntry list"

datatype fs_call = MkDir string | WriteFile string file_data

text \<open>
  The files and the calls made to the file system, in program order. Every path of an
  article ends in \<open>.md\<close>, so it is neither \<open>data/inventory.json\<close> nor
  \<open>data/decisions.json\<close>, and the articles are kept apart from the two JSON files. A
  call to the file system with a path that is a string is taken to succeed.
\<close>

record world =
  content_files :: "string \<rightharpoonup> string"
  inventory_file :: "InventoryEntry list json_file"
  decisions_file :: "DecisionLogEntry list json_file"
  trace :: "fs_call list"

definition inventoryPath :: string where
  "inventoryPath = ''data/inventory.json''"

definition decisionsPath :: string where
  "decisionsPath = ''data/decisions.json''"

definition mkdirSync :: "string \<Rightarrow> world \<Rightarrow> world" where
  "mkdirSync dir w = w\<lparr>trace := trace w @ [MkDir dir]\<rparr>"

text \<open>\<open>writeFileSync(filepath, article.content, 'utf-8')\<close>\<close>

definition write_content :: "string \<Rightarrow> string \<Rightarrow> world \<Rightarrow> world" where
  "write_content path text w =
     w\<lparr>content_files := (content_files w)(path \<mapsto> text),
       trace := trace w @ [WriteFile path (Text text)]\<rparr>"

text \<open>\<open>writeFileSync(inventoryPath, JSON.stringify(inventory, null, 2), 'utf-8')\<close>\<close>

definition write_inventory :: "InventoryEntry list js \<Rightarrow> world \<Rightarrow> world" where
  "write_inventory inventory w =
     w\<lparr>inventory_file := Stored inventory,
       trace := trace w @ [WriteFile inventoryPath (InventoryJson inventory)]\<rparr>"

text \<open>\<open>writeFileSync(logPath, JSON.stringify(logs, null, 2))\<close>\<close>

definition write_decisions :: "DecisionLogEntry list \<Rightarrow> world \<Rightarrow> world" where
  "write_decisions logs w =
     w\<lparr>decisions_file := Stored (JArray logs),
       trace := trace w @ [WriteFile decisionsPath (DecisionsJson logs)]\<rparr>"

section \<open>agent/analyze.ts: scoring\<close>

text \<open>The slugs of the inventory. The whole body is inside the \<open>try\<close>, so the result is
  \<open>[]\<close> when the file is missing, does not parse, or holds no array.\<close>

definition loadInventory :: "world \<Rightarrow> string list" where
  "loadInventory w =
     (case inventory_file w of
        Stored (JArray inventory) \<Rightarrow> map i_slug inventory
      | _ \<Rightarrow> [])"

text \<open>
  The existing slugs go into the prompt of the scorer (\<open>Do NOT recommend articles for
  slugs that already exist in the inventory\<close>); the reply is not checked against them.
  Each recommendation gets the markets its ids name, and the result is sorted by score,
  descending. The seed keywords and the weights of the configuration also go into the
  prompt; their two files are taken to be missing or well formed, so that building the
  prompt does not throw, and the reply is whatever the scorer gives.
\<close>

definition analyze :: "env \<Rightarrow> Observations \<Rightarrow> world \<Rightarrow> ContentOpportunity list" where
  "analyze e observations w =
     (let existingSlugs = loadInventory w in
      case scorer e observations existingSlugs of
        None \<Rightarrow> []
      | Some recommendations \<Rightarrow>
          let allMarkets = kalshiMarkets observations @ polymarketMarkets observations;
              opportunities =
                map (\<lambda>rec. (fst rec)\<lparr>relevantMarkets :=
                        List.map_filter (\<lambda>i. find (\<lambda>m. m_id m = i) allMarkets) (snd rec)\<rparr>)
                  recommendations
          in sort_key (\<lambda>x. - score x) opportunities)"

section \<open>agent/create.ts: generation\<close>

text \<open>The object \<open>create\<close> returns for an assignment and the generator's reply.\<close>

definition draft_of :: "ContentOpportunity \<Rightarrow> string \<times> nat \<Rightarrow> DraftArticle" where
  "draft_of assignment reply =
     \<lparr>d_slug = slug assignment, d_bucket = bucket assignment,
      d_category = category assignment, content = fst reply,
      d_title = title assignment, d_targetKeyword = targetKeyword assignment,
      wordCount = snd reply\<rparr>"

text \<open>\<open>None\<close> is the rethrown error of the generation call.\<close>

definition create :: "env \<Rightarrow> ContentOpportunity \<Rightarrow> DraftArticle option" where
  "create e assignment =
     (case generator e assignment of
        None \<Rightarrow> None
      | Some reply \<Rightarrow> Some (draft_of assignment reply))"

section \<open>agent/submit.ts: publication\<close>

text \<open>The own properties of the object literal \<open>bucketDir\<close>.\<close>

definition bucketDir :: "string \<Rightarrow> string option" where
  "bucketDir b =
     (if b = ''educational'' then Some ''site/content/learn''
      else if b = ''topical'' then Some ''site/content/markets''
      else if b = ''affiliate'' then Some ''site/content/best''
      else None)"

text \<open>
  The properties an object literal inherits from \<open>Object.prototype\<close>. Indexing
  \<open>bucketDir\<close> with one of these names gives a function (for \<open>__proto__\<close> an object),
  which is truthy and not a string.
\<close>

definition object_prototype_names :: "string list" where
  "object_prototype_names =
     [''constructor'', ''hasOwnProperty'', ''isPrototypeOf'', ''propertyIsEnumerable'',
      ''toLocaleString'', ''toString'', ''valueOf'', ''__proto__'',
      ''__defineGetter__'', ''__defineSetter__'', ''__lookupGetter__'', ''__lookupSetter__'']"

text \<open>\<open>bucketDir[article.bucket] || 'site/content/markets'\<close>: the directory, or \<open>None\<close>
  when the value is an inherited member and so not a string.\<close>

definition dir_of :: "string \<Rightarrow> string option" where
  "dir_of b =
     (case bucketDir b of
        Some d \<Rightarrow> Some d
      | None \<Rightarrow> if b \<in> set object_prototype_names then None else Some ''site/content/markets'')"

text \<open>
  The path of an article's file; the call creates the directory on its way. When the
  directory is not a string the bucket is not \<open>topical\<close>, the first branch is not taken,
  and \<open>mkdirSync(dir, ...)\<close> throws a \<open>TypeError\<close>.
\<close>

definition getContentPath :: "DraftArticle \<Rightarrow> world \<Rightarrow> (error + string) \<times> world" where
  "getContentPath article w =
     (case dir_of (d_bucket article) of
        None \<Rightarrow> (Inl TypeError, w)
      | Some dir \<Rightarrow>
          if d_bucket article = ''topical'' \<and> d_category article \<noteq> []
          then (let fullDir = dir @ ''/'' @ d_category article in
                (Inr (fullDir @ ''/'' @ d_slug article @ ''.md''), mkdirSync fullDir w))
          else (Inr (dir @ ''/'' @ d_slug article @ ''.md''), mkdirSync dir w))"

definition writeDraft :: "DraftArticle \<Rightarrow> world \<Rightarrow> (error + string) \<times> world" where
  "writeDraft article w =
     (case getContentPath article w of
        (Inl err, w') \<Rightarrow> (Inl err, w')
      | (Inr filepath, w') \<Rightarrow> (Inr filepath, write_content filepath (content article) w'))"

text \<open>Step 1 of \<open>submit\<close>: the loop over the articles, left by the first throw.\<close>

fun writeDrafts :: "DraftArticle list \<Rightarrow> world \<Rightarrow> (error + unit) \<times> world" where
  "writeDrafts [] w = (Inr (), w)"
| "writeDrafts (article # articles) w =
     (case writeDraft article w of
        (Inl err, w') \<Rightarrow> (Inl err, w')
      | (Inr filepath, w') \<Rightarrow> writeDrafts articles w')"

definition new_entry :: "string \<Rightarrow> DraftArticle \<Rightarrow> InventoryEntry" where
  "new_entry t article =
     \<lparr>i_slug = d_slug article, i_title = d_title article, i_bucket = d_bucket article,
      i_category = d_category article, i_targetKeyword = d_targetKeyword article,
      i_wordCount = wordCount article, status = ''draft'', createdAt = t\<rparr>"

text \<open>The loop of \<open>updateInventory\<close> on an array: \<open>continue\<close> on a slug the inventory
  has, which by then holds the entries pushed for the earlier articles of the batch.\<close>

fun add_articles :: "string \<Rightarrow> InventoryEntry list \<Rightarrow> DraftArticle list \<Rightarrow> InventoryEntry list" where
  "add_articles t inventory [] = inventory"
| "add_articles t inventory (article # articles) =
     (if d_slug article \<in> set (map i_slug inventory) then add_articles t inventory articles
      else add_articles t (inventory @ [new_entry t article]) articles)"

text \<open>
  \<open>updateInventory\<close>. On a value that is no array, \<open>inventory.some\<close> throws a
  \<open>TypeError\<close> at the first article, before anything is written. With no article the
  loop is not entered and the value is written back; \<open>inventory.length\<close> in the message
  that follows the write then throws for \<open>null\<close>.
\<close>

definition updateInventory :: "DraftArticle list \<Rightarrow> env \<Rightarrow> world \<Rightarrow> (error + unit) \<times> world" where
  "updateInventory articles e w =
     (case read_array (inventory_file w) of
        JArray inventory \<Rightarrow>
          (Inr (), write_inventory (JArray (add_articles (now e) inventory articles))
                     (mkdirSync ''data'' w))
      | JOther \<Rightarrow>
          if articles = [] then (Inr (), write_inventory JOther (mkdirSync ''data'' w))
          else (Inl TypeError, w)
      | JNull \<Rightarrow>
          if articles = [] then (Inl TypeError, write_inventory JNull (mkdirSync ''data'' w))
          else (Inl TypeError, w))"

text \<open>\<open>createGitBranch\<close> rethrows the error of a failing git command. It touches no file
  through the file-system calls modelled here.\<close>

definition createGitBranch :: "env \<Rightarrow> error + unit" where
  "createGitBranch e = (if git_ok e then Inr () else Inl GitError)"

text \<open>With a token, the body \<open>createPullRequest\<close> builds calls \<open>getContentPath\<close> for
  every article, outside its \<open>try\<close>.\<close>

fun content_paths :: "DraftArticle list \<Rightarrow> world \<Rightarrow> (error + unit) \<times> world" where
  "content_paths [] w = (Inr (), w)"
| "content_paths (article # articles) w =
     (case getContentPath article w of
        (Inl err, w') \<Rightarrow> (Inl err, w')
      | (Inr filepath, w') \<Rightarrow> content_paths articles w')"

definition createPullRequest :: "DraftArticle list \<Rightarrow> env \<Rightarrow> world \<Rightarrow> (error + unit) \<times> world" where
  "createPullRequest articles e w =
     (if GITHUB_TOKEN e then content_paths articles w else (Inr (), w))"

definition submit :: "DraftArticle list \<Rightarrow> env \<Rightarrow> world \<Rightarrow> (error + unit) \<times> world" where
  "submit articles e w =
     (case writeDrafts articles w of
        (Inl err, w1) \<Rightarrow> (Inl err, w1)
      | (Inr u, w1) \<Rightarrow>
          (case updateInventory articles e w1 of
             (Inl err, w2) \<Rightarrow> (Inl err, w2)
           | (Inr u', w2) \<Rightarrow>
               if CI e
               then (case createGitBranch e of
                       Inl err \<Rightarrow> (Inl err, w2)
                     | Inr branchName \<Rightarrow> createPullRequest articles e w2)
               else (Inr (), w2)))"

section \<open>agent/index.ts: generation, submission and the decisions log\<close>

text \<open>The loop of step 4: a draft is pushed for every assignment whose generation
  returns; a throwing one is caught, logged and skipped.\<close>

fun create_all :: "env \<Rightarrow> ContentOpportunity list \<Rightarrow> DraftArticle list \<Rightarrow> DraftArticle list" where
  "create_all e [] drafts = drafts"
| "create_all e (assignment # assignments) drafts =
     (case create e assignment of
        Some draft \<Rightarrow> create_all e assignments (drafts @ [draft])
      | None \<Rightarrow> create_all e assignments drafts)"

definition logEntry ::
  "env \<Rightarrow> Observations \<Rightarrow> ContentOpportunity list \<Rightarrow> ContentOpportunity list \<Rightarrow>
   DraftArticle list \<Rightarrow> DecisionLogEntry" where
  "logEntry e observations opportunities assignments drafts =
     \<lparr>log_timestamp = now e,
      log_observations =
        (length (kalshiMarkets observations), length (polymarketMarkets observations),
         length (movers observations), length (trendingTopics observations)),
      log_opportunities = length opportunities,
      log_selected = map (\<lambda>a. (title a, bucket a, score a)) assignments,
      log_produced = map (\<lambda>d. (d_slug d, d_bucket d, wordCount d)) drafts,
      elapsedSeconds = elapsed e\<rparr>"

datatype exit_status = Completed | Exit1

text \<open>
  Steps 4 and 5 of \<open>main\<close> and the audit log, from the assignments on. A throwing
  \<open>submit\<close> reaches the \<open>catch\<close> of \<open>main\<close>, which exits with status 1. So does
  \<open>logs.push\<close> when the decisions file holds a value that is no array: the inner \<open>try\<close>
  covers the parse only.
\<close>

definition produce ::
  "env \<Rightarrow> Observations \<Rightarrow> ContentOpportunity list \<Rightarrow> ContentOpportunity list \<Rightarrow> world \<Rightarrow>
   exit_status \<times> world" where
  "produce e observations opportunities assignments w =
     (let drafts = create_all e assignments [] in
      if drafts = [] then (Completed, w)
      else (case submit drafts e w of
              (Inl err, w1) \<Rightarrow> (Exit1, w1)
            | (Inr u, w1) \<Rightarrow>
                (case read_array (decisions_file w1) of
                   JArray logs \<Rightarrow>
                     (Completed,
                      write_decisions
                        (logs @ [logEntry e observations opportunities assignments drafts]) w1)
                 | JOther \<Rightarrow> (Exit1, w1)
                 | JNull \<Rightarrow> (Exit1, w1))))"

section \<open>Notions used in the statements\<close>

text \<open>An article whose bucket is no inherited property name: \<open>getContentPath\<close> returns
  for it.\<close>

definition plain_bucket :: "DraftArticle \<Rightarrow> bool" where
  "plain_bucket article \<longleftrightarrow> d_bucket article \<notin> set object_prototype_names"

text \<open>The directory and the path \<open>getContentPath\<close> computes for such an article.\<close>

definition contentDir :: "DraftArticle \<Rightarrow> string" where
  "contentDir article =
     (let dir = (case bucketDir (d_bucket article) of Some d \<Rightarrow> d | None \<Rightarrow> ''site/content/markets'') in
      if d_bucket article = ''topical'' \<and> d_category article \<noteq> []
      then dir @ ''/'' @ d_category article else dir)"

definition contentPath :: "DraftArticle \<Rightarrow> string" where
  "contentPath article = contentDir article @ ''/'' @ d_slug article @ ''.md''"

text \<open>The calls that write a file, and those that write the inventory.\<close>

fun is_write :: "fs_call \<Rightarrow> bool" where
  "is_write (WriteFile path d) = True"
| "is_write (MkDir dir) = False"

fun is_inventory_write :: "fs_call \<Rightarrow> bool" where
  "is_inventory_write (WriteFile path (InventoryJson v)) = True"
| "is_inventory_write (WriteFile path (Text t)) = False"
| "is_inventory_write (WriteFile path (DecisionsJson l)) = False"
| "is_inventory_write (MkDir dir) = False"


text \<open>How many of the selected assignments are in a bucket.\<close>

definition selected_from :: "string \<Rightarrow> ContentOpportunity list \<Rightarrow> nat" where
  "selected_from b xs = length (filter (\<lambda>x. bucket x = b) xs)"

text \<open>
  A binary64 number with a full mantissa that lies less than half a unit in its last
  place from \<open>x\<close>: it is the number the language reads for the decimal \<open>x\<close>.
\<close>

fun reads_as :: "real \<Rightarrow> double \<Rightarrow> bool" where
  "reads_as x (Double m e) \<longleftrightarrow>
     2 ^ 52 \<le> \<bar>m\<bar> \<and> \<bar>m\<bar> < 2 ^ 53 \<and> 2 * \<bar>x - dval (Double m e)\<bar> < dval (Double 1 e)"

section \<open>Example inputs\<close>

text \<open>An opportunity given by its slug, bucket and score.\<close>

definition opp :: "string \<Rightarrow> string \<Rightarrow> real \<Rightarrow> ContentOpportunity" where
  "opp s b sc =
     \<lparr>title = s, slug = s, bucket = b, category = ''learn'', targetKeyword = s,
      secondaryKeywords = [], score = sc, reasoning = [], relevantMarkets = []\<rparr>"

text \<open>Three educational, two topical and two affiliate opportunities, in the order the
  scorer's sort leaves them.\<close>

definition seven_opps :: "ContentOpportunity list" where
  "seven_opps =
     [opp ''e1'' ''educational'' 0.9, opp ''t1'' ''topical'' 0.9, opp ''a1'' ''affiliate'' 0.9,
      opp ''e2'' ''educational'' 0.8, opp ''t2'' ''topical'' 0.8, opp ''a2'' ''affiliate'' 0.8,
      opp ''e3'' ''educational'' 0.7]"

definition four_opps :: "ContentOpportunity list" where
  "four_opps =
     [opp ''a1'' ''affiliate'' 0.95, opp ''e1'' ''educational'' 0.9, opp ''t1'' ''topical'' 0.6,
      opp ''e2'' ''educational'' 0.5]"

definition three_assignments :: "ContentOpportunity list" where
  "three_assignments =
     [opp ''e1'' ''educational'' 0.9, opp ''t1'' ''topical'' 0.8, opp ''a1'' ''affiliate'' 0.7]"

text \<open>The default configuration with another \<open>maxArticles\<close>.\<close>

definition with_max :: "int \<Rightarrow> DecisionConfig" where
  "with_max n = DEFAULT_CONFIG\<lparr>maxArticles := n\<rparr>"

text \<open>A draft given by its slug and bucket.\<close>

definition draft :: "string \<Rightarrow> string \<Rightarrow> DraftArticle" where
  "draft s b =
     \<lparr>d_slug = s, d_bucket = b, d_category = ''politics'', content = ''About '' @ s,
      d_title = s, d_targetKeyword = s, wordCount = 900\<rparr>"

text \<open>A generator that throws on one slug and writes 900 words on any other.\<close>

definition failing_on :: "string \<Rightarrow> ContentOpportunity \<Rightarrow> (string \<times> nat) option" where
  "failing_on s a = (if slug a = s then None else Some (''About '' @ slug a, 900))"

text \<open>A local run (no CI), with the scorer's reply and the generator given.\<close>

definition test_env ::
  "(ContentOpportunity \<times> string list) list \<Rightarrow> (ContentOpportunity \<Rightarrow> (string \<times> nat) option) \<Rightarrow> env" where
  "test_env recs gen =
     \<lparr>scorer = (\<lambda>obs slugs. Some recs), generator = gen,
      now = ''2026-01-01T00:00:00.000Z'', elapsed = 1.5,
      CI = False, git_ok = True, GITHUB_TOKEN = False\<rparr>"

definition no_observations :: Observations where
  "no_observations =
     \<lparr>kalshiMarkets = [], polymarketMarkets = [], movers = [], trendingTopics = [],
      newsHeadlines = [], timestamp = ''2026-01-01T00:00:00.000Z''\<rparr>"

text \<open>A world with no file, and one whose inventory holds the slug \<open>e1\<close>.\<close>

definition empty_world :: world where
  "empty_world =
     \<lparr>content_files = Map.empty, inventory_file = Missing, decisions_file = Missing, trace = []\<rparr>"

definition ledger_world :: world where
  "ledger_world =
     empty_world\<lparr>inventory_file :=
       Stored (JArray [new_entry ''2025-12-01T00:00:00.000Z'' (draft ''e1'' ''educational'')])\<rparr>"

text \<open>The binary64 numbers the language reads for some decimal prices.\<close>

definition price_0_30 :: double where "price_0_30 = Double 5404319552844595 (- 54)"
definition price_0_40 :: double where "price_0_40 = Double 7205759403792794 (- 54)"
definition price_0_50 :: double where "price_0_50 = Double 4503599627370496 (- 53)"
definition price_0_60 :: double where "price_0_60 = Double 5404319552844595 (- 53)"
definition price_0_65 :: double where "price_0_65 = Double 5854679515581645 (- 53)"
definition price_0_90 :: double where "price_0_90 = Double 8106479329266893 (- 53)"

definition market :: "platform \<Rightarrow> string \<Rightarrow> double \<Rightarrow> MarketData" where
  "market p i price =
     \<lparr>m_id = i, m_title = i, m_category = ''general'', m_platform = p, yes_price = price,
      volume = 10000, end_date = None, url = ''https://example.test/'' @ i\<rparr>"

text \<open>Two snapshots, in decimal prices: Kalshi A goes from 0.50 to 0.65, Kalshi B from
  0.50 to 0.60, Polymarket A from 0.30 to 0.40, and Polymarket C is new.\<close>

definition previous_markets :: "MarketData list" where
  "previous_markets =
     [market Kalshi ''A'' price_0_50, market Kalshi ''B'' price_0_50,
      market Polymarket ''A'' price_0_30]"

definition current_markets :: "MarketData list" where
  "current_markets =
     [market Kalshi ''A'' price_0_65, market Kalshi ''B'' price_0_60,
      market Polymarket ''A'' price_0_40, market Polymarket ''C'' price_0_90]"

section \<open>Verification: allocation (agent/decide.ts)\<close>

subsection \<open>The two loops in closed form\<close>

lemma pick_step:
  "\<not> t \<le> int c \<Longrightarrow> \<not> m \<le> int l \<Longrightarrow>
   min (nat (t - int c)) (nat (m - int l)) = Suc (min (nat (t - int (c + 1))) (nat (m - int (l + 1))))"
  by linarith

lemma fill_bucket_take:
  "fill_bucket target maxA xs selected cnt =
     selected @ take (min (nat (target - int cnt)) (nat (maxA - int (length selected)))) xs"
proof (induction xs arbitrary: selected cnt)
  case Nil
  then show ?case by simp
next
  case (Cons x xs)
  show ?case
  proof (cases "target \<le> int cnt \<or> maxA \<le> int (length selected)")
    case True
    then show ?thesis by auto
  next
    case False
    then have n: "min (nat (target - int cnt)) (nat (maxA - int (length selected))) =
        Suc (min (nat (target - int (cnt + 1))) (nat (maxA - int (length selected + 1))))"
      using pick_step by blast
    from False have "fill_bucket target maxA (x # xs) selected cnt
        = fill_bucket target maxA xs (selected @ [x]) (cnt + 1)"
      by simp
    also have "\<dots> = (selected @ [x]) @
        take (min (nat (target - int (cnt + 1))) (nat (maxA - int (length selected + 1)))) xs"
      by (simp only: Cons.IH length_append list.size) simp
    finally show ?thesis
      by (simp only: n) simp
  qed
qed

lemma fill_remaining_take:
  "fill_remaining maxA xs selected = selected @ take (nat (maxA - int (length selected))) xs"
proof (induction xs arbitrary: selected)
  case Nil
  then show ?case by simp
next
  case (Cons x xs)
  show ?case
  proof (cases "maxA \<le> int (length selected)")
    case True
    then show ?thesis by simp
  next
    case False
    then have n: "nat (maxA - int (length selected)) = Suc (nat (maxA - int (length selected + 1)))"
      by linarith
    from False have "fill_remaining maxA (x # xs) selected = fill_remaining maxA xs (selected @ [x])"
      by simp
    also have "\<dots> = (selected @ [x]) @ take (nat (maxA - int (length selected + 1))) xs"
      by (simp only: Cons.IH length_append list.size) simp
    finally show ?thesis
      by (simp only: n) simp
  qed
qed

subsection \<open>Sorting and the viable opportunities\<close>

lemma set_by_score_desc [simp]: "set (by_score_desc xs) = set xs"
  by (simp add: by_score_desc_def)

lemma length_by_score_desc [simp]: "length (by_score_desc xs) = length xs"
  by (simp add: by_score_desc_def)

lemma distinct_by_score_desc [simp]: "distinct (by_score_desc xs) = distinct xs"
  by (simp add: by_score_desc_def)

lemma mset_by_score_desc [simp]: "mset (by_score_desc xs) = mset xs"
  by (simp add: by_score_desc_def)

lemma distinct_viable: "distinct (viable opps minS)"
  by (simp add: viable_def)

lemma map_snd_viable: "map snd (viable opps minS) = filter (\<lambda>x. minS \<le> score x) opps"
proof -
  have "map snd (filter (\<lambda>r. minS \<le> score (snd r)) ys) = filter (\<lambda>x. minS \<le> score x) (map snd ys)" for ys :: "opp_ref list"
    by (induction ys) auto
  then show ?thesis
    by (simp add: viable_def)
qed

subsection \<open>The first pass\<close>

lemma fill_bucket_set:
  "set (fill_bucket t m (by_score_desc (filter P vs)) s c) \<subseteq> set s \<union> {r \<in> set vs. P r}"
proof -
  have "set (take k (by_score_desc (filter P vs))) \<subseteq> {r \<in> set vs. P r}" for k
    using set_take_subset [of k "by_score_desc (filter P vs)"] by auto
  then show ?thesis
    by (auto simp: fill_bucket_take)
qed

lemma fill_bucket_length:
  "length s \<le> nat m \<Longrightarrow> length (fill_bucket t m xs s c) \<le> nat m"
  by (simp add: fill_bucket_take)

lemma fill_bucket_distinct:
  assumes "distinct s" "distinct vs" "\<And>r. r \<in> set s \<Longrightarrow> \<not> P r"
  shows "distinct (fill_bucket t m (by_score_desc (filter P vs)) s c)"
proof -
  let ?xs = "by_score_desc (filter P vs)"
  have d: "distinct (take k ?xs)" for k
    using assms(2) by simp
  have "set (take k ?xs) \<subseteq> {r \<in> set vs. P r}" for k
    using set_take_subset [of k ?xs] by auto
  then have "set s \<inter> set (take k ?xs) = {}" for k
    using assms(3) by blast
  with d assms(1) show ?thesis
    by (simp add: fill_bucket_take)
qed

lemma first_pass_unfold:
  "first_pass m T vs =
     fill_bucket (affiliate T) m (by_score_desc (filter (\<lambda>r. bucket (snd r) = ''affiliate'') vs))
       (fill_bucket (topical T) m (by_score_desc (filter (\<lambda>r. bucket (snd r) = ''topical'') vs))
          (fill_bucket (educational T) m
             (by_score_desc (filter (\<lambda>r. bucket (snd r) = ''educational'') vs)) [] 0) 0) 0"
  by (simp add: first_pass_def)

lemma first_pass_set: "set (first_pass m T vs) \<subseteq> set vs"
proof -
  let ?s1 = "fill_bucket (educational T) m
             (by_score_desc (filter (\<lambda>r. bucket (snd r) = ''educational'') vs)) [] 0"
  let ?s2 = "fill_bucket (topical T) m (by_score_desc (filter (\<lambda>r. bucket (snd r) = ''topical'') vs)) ?s1 0"
  have 1: "set ?s1 \<subseteq> set vs"
    using fill_bucket_set [of "educational T" m "\<lambda>r. bucket (snd r) = ''educational''" vs "[]" 0]
    by auto
  have 2: "set ?s2 \<subseteq> set vs"
    using fill_bucket_set [of "topical T" m "\<lambda>r. bucket (snd r) = ''topical''" vs ?s1 0] 1
    by auto
  show ?thesis
    unfolding first_pass_unfold
    using fill_bucket_set [of "affiliate T" m "\<lambda>r. bucket (snd r) = ''affiliate''" vs ?s2 0] 2
    by auto
qed

lemma first_pass_length: "length (first_pass m T vs) \<le> nat m"
  unfolding first_pass_unfold
  by (intro fill_bucket_length) simp

lemma first_pass_distinct:
  assumes "distinct vs"
  shows "distinct (first_pass m T vs)"
proof -
  let ?s1 = "fill_bucket (educational T) m
             (by_score_desc (filter (\<lambda>r. bucket (snd r) = ''educational'') vs)) [] 0"
  let ?s2 = "fill_bucket (topical T) m (by_score_desc (filter (\<lambda>r. bucket (snd r) = ''topical'') vs)) ?s1 0"
  have s1: "set ?s1 \<subseteq> {r \<in> set vs. bucket (snd r) = ''educational''}"
    using fill_bucket_set [of "educational T" m "\<lambda>r. bucket (snd r) = ''educational''" vs "[]" 0]
    by auto
  have s2: "set ?s2 \<subseteq> {r \<in> set vs. bucket (snd r) = ''educational'' \<or> bucket (snd r) = ''topical''}"
    using fill_bucket_set [of "topical T" m "\<lambda>r. bucket (snd r) = ''topical''" vs ?s1 0] s1
    by auto
  have d1: "distinct ?s1"
    by (rule fill_bucket_distinct) (use assms in auto)
  have d2: "distinct ?s2"
  proof (rule fill_bucket_distinct [OF d1 assms])
    fix r assume "r \<in> set ?s1"
    with s1 have "bucket (snd r) = ''educational''" by auto
    then show "bucket (snd r) \<noteq> ''topical''" by simp
  qed
  show ?thesis
    unfolding first_pass_unfold
  proof (rule fill_bucket_distinct [OF d2 assms])
    fix r assume "r \<in> set ?s2"
    with s2 have "bucket (snd r) = ''educational'' \<or> bucket (snd r) = ''topical''" by auto
    then show "bucket (snd r) \<noteq> ''affiliate''" by auto
  qed
qed

subsection \<open>The second pass\<close>

lemma length_filter_not_selected:
  assumes "distinct vs" "distinct s" "set s \<subseteq> set vs"
  shows "length (filter (\<lambda>r. r \<notin> set s) vs) = length vs - length s"
proof -
  have "length (filter (\<lambda>r. r \<notin> set s) vs) = card ({r. r \<notin> set s} \<inter> set vs)"
    using assms(1) by (rule distinct_length_filter)
  also have "{r. r \<notin> set s} \<inter> set vs = set vs - set s"
    by auto
  also have "card (set vs - set s) = card (set vs) - card (set s)"
    using assms(3) by (simp add: card_Diff_subset)
  finally show ?thesis
    using assms(1,2) by (simp add: distinct_card)
qed

lemma second_pass_length:
  assumes "distinct vs" "distinct s" "set s \<subseteq> set vs" "length s \<le> nat m"
  shows "length (second_pass m vs s) = min (nat m) (length vs)"
proof -
  have le: "length s \<le> length vs"
    using assms(1-3) by (metis card_mono distinct_card List.finite_set)
  show ?thesis
  proof (cases "int (length s) < m")
    case True
    then show ?thesis
      using le by (simp add: second_pass_def fill_remaining_take length_filter_not_selected [OF assms(1-3)])
  next
    case False
    with assms(4) le show ?thesis
      by (simp add: second_pass_def)
  qed
qed

lemma second_pass_set:
  "set s \<subseteq> set vs \<Longrightarrow> set (second_pass m vs s) \<subseteq> set vs"
proof -
  have "set (take k (by_score_desc (filter (\<lambda>r. r \<notin> set s) vs))) \<subseteq> set vs" for k
    using set_take_subset [of k "by_score_desc (filter (\<lambda>r. r \<notin> set s) vs)"] by auto
  then show "set s \<subseteq> set vs \<Longrightarrow> set (second_pass m vs s) \<subseteq> set vs"
    by (auto simp: second_pass_def fill_remaining_take)
qed

lemma second_pass_distinct:
  assumes "distinct vs" "distinct s"
  shows "distinct (second_pass m vs s)"
proof -
  let ?xs = "by_score_desc (filter (\<lambda>r. r \<notin> set s) vs)"
  have d: "distinct (take k ?xs)" for k
    using assms(1) by simp
  have "set (take k ?xs) \<subseteq> {r \<in> set vs. r \<notin> set s}" for k
    using set_take_subset [of k ?xs] by auto
  then have "set s \<inter> set (take k ?xs) = {}" for k
    by blast
  with d assms(2) show ?thesis
    by (simp add: second_pass_def fill_remaining_take)
qed

lemma decide_refs_length:
  "length (decide_refs opps cfg) = min (nat (maxArticles cfg)) (length (viable opps (minScore cfg)))"
proof (cases "viable opps (minScore cfg) = []")
  case True
  then show ?thesis by (simp add: decide_refs_def)
next
  case False
  then show ?thesis
    by (simp add: decide_refs_def Let_def
        second_pass_length [OF distinct_viable first_pass_distinct [OF distinct_viable]
          first_pass_set first_pass_length])
qed

lemma decide_refs_set: "set (decide_refs opps cfg) \<subseteq> set (viable opps (minScore cfg))"
  by (simp add: decide_refs_def Let_def second_pass_set [OF first_pass_set])

lemma decide_refs_distinct: "distinct (decide_refs opps cfg)"
  by (simp add: decide_refs_def Let_def
      second_pass_distinct [OF distinct_viable first_pass_distinct [OF distinct_viable]])

subsection \<open>The selection as a whole\<close>

lemma length_decide:
  "length (decide opps cfg) =
     min (nat (maxArticles cfg)) (length (filter (\<lambda>x. minScore cfg \<le> score x) opps))"
proof -
  have "length (viable opps (minScore cfg)) = length (map snd (viable opps (minScore cfg)))"
    by simp
  then show ?thesis
    by (simp only: decide_def length_map decide_refs_length map_snd_viable)
qed

lemma mset_decide_all:
  assumes "length (filter (\<lambda>x. minScore cfg \<le> score x) opps) \<le> nat (maxArticles cfg)"
  shows "mset (decide opps cfg) = mset (filter (\<lambda>x. minScore cfg \<le> score x) opps)"
proof -
  let ?vs = "viable opps (minScore cfg)"
  let ?ds = "decide_refs opps cfg"
  have lv: "length ?vs = length (filter (\<lambda>x. minScore cfg \<le> score x) opps)"
    using map_snd_viable [of opps "minScore cfg"] by (metis length_map)
  have "length ?ds = length ?vs"
    using assms by (simp add: decide_refs_length lv)
  then have "card (set ?ds) = card (set ?vs)"
    by (simp add: distinct_card decide_refs_distinct distinct_viable)
  then have "set ?ds = set ?vs"
    using decide_refs_set [of opps cfg] by (simp add: card_subset_eq)
  then have "mset ?ds = mset ?vs"
    by (simp add: set_eq_iff_mset_eq_distinct [symmetric] decide_refs_distinct distinct_viable)
  then have "mset (map snd ?ds) = mset (map snd ?vs)"
    by (metis mset_map)
  then show ?thesis
    by (simp only: decide_def map_snd_viable)
qed

lemma set_decide: "set (decide opps cfg) \<subseteq> {x \<in> set opps. minScore cfg \<le> score x}"
proof -
  have "set (map snd (decide_refs opps cfg)) \<subseteq> set (map snd (viable opps (minScore cfg)))"
    using decide_refs_set [of opps cfg] by auto
  then show ?thesis
    by (simp only: decide_def map_snd_viable) auto
qed

text \<open>
  Claim C4. For every list of opportunities, every \<open>maxArticles \<ge> 0\<close>, every
  \<open>minScore\<close> and every weight map, \<open>decide\<close> returns exactly
  min(maxArticles, number of opportunities with score \<ge> minScore) assignments. It
  returns the empty list when no opportunity is viable, and all the viable ones (as a
  multiset) when there are at most \<open>maxArticles\<close> of them. The model of \<open>decide\<close> is a
  total function with no error branch; the weights are arbitrary, so the claim's condition
  of a nonzero weight is not needed.
\<close>

theorem decide_total:
  "0 \<le> maxArticles cfg \<Longrightarrow>
     int (length (decide opps cfg)) =
       min (maxArticles cfg) (int (length (filter (\<lambda>x. minScore cfg \<le> score x) opps)))
     \<and> (filter (\<lambda>x. minScore cfg \<le> score x) opps = [] \<longrightarrow> decide opps cfg = [])
     \<and> (int (length (filter (\<lambda>x. minScore cfg \<le> score x) opps)) \<le> maxArticles cfg \<longrightarrow>
          mset (decide opps cfg) = mset (filter (\<lambda>x. minScore cfg \<le> score x) opps))"
proof (intro conjI impI)
  assume m: "0 \<le> maxArticles cfg"
  show "int (length (decide opps cfg)) =
       min (maxArticles cfg) (int (length (filter (\<lambda>x. minScore cfg \<le> score x) opps)))"
    using m by (simp add: length_decide)
  show "decide opps cfg = []" if "filter (\<lambda>x. minScore cfg \<le> score x) opps = []"
    using length_decide [of opps cfg] that by simp
  show "mset (decide opps cfg) = mset (filter (\<lambda>x. minScore cfg \<le> score x) opps)"
    if "int (length (filter (\<lambda>x. minScore cfg \<le> score x) opps)) \<le> maxArticles cfg"
    using that by (intro mset_decide_all) linarith
qed

text \<open>The theorem at seven viable opportunities with the limits 4 and 10, and at one
  opportunity below the minimum score.\<close>

theorem decide_total_witness:
  "length (decide seven_opps (with_max 4)) = 4
   \<and> decide [opp ''x'' ''topical'' 0.1] (with_max 4) = []
   \<and> mset (decide seven_opps (with_max 10)) = mset seven_opps"
  using decide_total [of "with_max 4" seven_opps]
    decide_total [of "with_max 4" "[opp ''x'' ''topical'' 0.1]"]
    decide_total [of "with_max 10" seven_opps]
  by (simp add: with_max_def DEFAULT_CONFIG_def seven_opps_def opp_def)

subsection \<open>More capacity\<close>

lemma js_round_mono: "x \<le> y \<Longrightarrow> js_round x \<le> js_round y"
  by (simp add: js_round_def floor_mono)

lemma target_mono:
  assumes "m \<le> m'" "0 \<le> (w::real)"
  shows "max c (js_round (of_int m * w)) \<le> max c (js_round (of_int m' * w))"
proof -
  have "of_int m * w \<le> of_int m' * w"
    using assms by (simp add: mult_right_mono)
  then have "js_round (of_int m * w) \<le> js_round (of_int m' * w)"
    by (rule js_round_mono)
  then show ?thesis by linarith
qed

text \<open>
  Claim C3, as amended. For fixed opportunities, a fixed minimum score and fixed weights
  that are not negative, and for limits \<open>m \<le> m'\<close>: the target count of every bucket
  under \<open>m'\<close> is at least its target count under \<open>m\<close>, and \<open>decide\<close> selects at least as
  many assignments in total under \<open>m'\<close> as under \<open>m\<close>. Nothing is said of the number
  selected from one bucket: the first pass fills the buckets in a fixed order up to the
  limit, so a larger limit can raise the targets of the earlier buckets by more than the
  limit grew.
\<close>

theorem capacity_monotone:
  "m \<le> m' \<Longrightarrow> 0 \<le> educational w \<Longrightarrow> 0 \<le> topical w \<Longrightarrow> 0 \<le> affiliate w \<Longrightarrow>
     at_bucket (targetCounts m w) b \<le> at_bucket (targetCounts m' w) b
     \<and> length (decide opps \<lparr>maxArticles = m, bucketWeights = w, minScore = s\<rparr>)
         \<le> length (decide opps \<lparr>maxArticles = m', bucketWeights = w, minScore = s\<rparr>)"
proof (intro conjI)
  assume a: "m \<le> m'" "0 \<le> educational w" "0 \<le> topical w" "0 \<le> affiliate w"
  show "at_bucket (targetCounts m w) b \<le> at_bucket (targetCounts m' w) b"
  proof (cases b)
    case Educational
    then show ?thesis
      using target_mono [OF a(1) a(2), of 1] by (simp add: targetCounts_def)
  next
    case Topical
    then show ?thesis
      using target_mono [OF a(1) a(3), of 0] by (simp add: targetCounts_def)
  next
    case Affiliate
    then show ?thesis
      using target_mono [OF a(1) a(4), of 0] by (simp add: targetCounts_def)
  qed
  have "min (nat m) k \<le> min (nat m') k" for k :: nat
    using a(1) by linarith
  then show "length (decide opps \<lparr>maxArticles = m, bucketWeights = w, minScore = s\<rparr>)
         \<le> length (decide opps \<lparr>maxArticles = m', bucketWeights = w, minScore = s\<rparr>)"
    by (simp add: length_decide)
qed

text \<open>The theorem at the limits 4 and 5, the default weights, the affiliate bucket and
  the seven opportunities.\<close>

theorem capacity_monotone_witness:
  "at_bucket (targetCounts 4 default_weights) Affiliate \<le> at_bucket (targetCounts 5 default_weights) Affiliate
   \<and> length (decide seven_opps \<lparr>maxArticles = 4, bucketWeights = default_weights, minScore = 0.3\<rparr>)
       \<le> length (decide seven_opps \<lparr>maxArticles = 5, bucketWeights = default_weights, minScore = 0.3\<rparr>)"
  using capacity_monotone [of 4 5 default_weights Affiliate seven_opps "0.3"]
  by (simp add: default_weights_def)

text \<open>
  Claim C3 as stated fails. With the default weights and the seven opportunities, all
  viable, the limit 4 selects one affiliate assignment and leaves the affiliate candidate
  \<open>a2\<close> unselected; the limit 5 selects no affiliate assignment: its targets are 3
  educational and 2 topical, which fill the five places before the affiliate bucket is
  reached.
\<close>

theorem affiliate_loses_a_slot:
  "decide seven_opps (with_max 4) =
     [opp ''e1'' ''educational'' 0.9, opp ''e2'' ''educational'' 0.8,
      opp ''t1'' ''topical'' 0.9, opp ''a1'' ''affiliate'' 0.9]
   \<and> decide seven_opps (with_max 5) =
     [opp ''e1'' ''educational'' 0.9, opp ''e2'' ''educational'' 0.8, opp ''e3'' ''educational'' 0.7,
      opp ''t1'' ''topical'' 0.9, opp ''t2'' ''topical'' 0.8]
   \<and> opp ''a2'' ''affiliate'' 0.8 \<in> set seven_opps
   \<and> minScore (with_max 4) \<le> score (opp ''a2'' ''affiliate'' 0.8)
   \<and> opp ''a2'' ''affiliate'' 0.8 \<notin> set (decide seven_opps (with_max 4))
   \<and> selected_from ''affiliate'' (decide seven_opps (with_max 4)) = 1
   \<and> selected_from ''affiliate'' (decide seven_opps (with_max 5)) = 0"
  by code_simp

subsection \<open>Three articles with the default weights\<close>

text \<open>
  Claim C5 as stated fails in its target counts: with \<open>maxArticles = 3\<close> and the
  default weights the affiliate target is \<open>max 0 (round (3 \<times> 0.15)) = round 0.45 = 0\<close>,
  not 1.
\<close>

theorem affiliate_target_of_three:
  "targetCounts 3 (bucketWeights DEFAULT_CONFIG) = \<lparr>educational = 2, topical = 1, affiliate = 0\<rparr>
   \<and> affiliate (targetCounts 3 (bucketWeights DEFAULT_CONFIG)) \<noteq> 1"
  by (simp add: targetCounts_def DEFAULT_CONFIG_def js_round_def)

lemma targets_of_three:
  "targetCounts 3 default_weights = \<lparr>educational = 2, topical = 1, affiliate = 0\<rparr>"
  by (simp add: targetCounts_def default_weights_def js_round_def)

lemma length_filter_viable:
  "length (filter (\<lambda>r. bucket (snd r) = b) (viable opps minS)) =
     length (filter (\<lambda>x. minS \<le> score x \<and> bucket x = b) opps)"
proof -
  have "length (filter (\<lambda>r. bucket (snd r) = b) ys) = length (filter (\<lambda>x. bucket x = b) (map snd ys))"
    for ys :: "opp_ref list"
    by (induction ys) auto
  from this [of "viable opps minS"] show ?thesis
    by (simp only: map_snd_viable filter_filter)
qed

lemma take_2: "2 \<le> length xs \<Longrightarrow> \<exists>a b. take 2 xs = [a, b] \<and> a \<in> set xs \<and> b \<in> set xs"
  by (cases xs; cases "tl xs") auto

lemma take_1: "1 \<le> length xs \<Longrightarrow> \<exists>a. take 1 xs = [a] \<and> a \<in> set xs"
  by (cases xs) auto

text \<open>
  Claim C5, as amended. With \<open>maxArticles = 3\<close> and the weights educational 0.5,
  topical 0.35, affiliate 0.15, the target counts are educational 2, topical 1,
  affiliate 0. Given at least two educational and one topical viable opportunities, the
  first pass selects the two educational ones of highest score and then the topical one
  of highest score; that is the result of \<open>decide\<close>, the second pass adding nothing, and
  no affiliate opportunity is selected.
\<close>

theorem three_default_slots:
  assumes "maxArticles cfg = 3" and "bucketWeights cfg = default_weights"
    and "2 \<le> length (filter (\<lambda>x. minScore cfg \<le> score x \<and> bucket x = ''educational'') opps)"
    and "1 \<le> length (filter (\<lambda>x. minScore cfg \<le> score x \<and> bucket x = ''topical'') opps)"
  shows "targetCounts (maxArticles cfg) (bucketWeights cfg) = \<lparr>educational = 2, topical = 1, affiliate = 0\<rparr>
    \<and> first_pass 3 (targetCounts 3 default_weights) (viable opps (minScore cfg)) =
        take 2 (by_score_desc (filter (\<lambda>r. bucket (snd r) = ''educational'') (viable opps (minScore cfg))))
        @ take 1 (by_score_desc (filter (\<lambda>r. bucket (snd r) = ''topical'') (viable opps (minScore cfg))))
    \<and> decide_refs opps cfg = first_pass 3 (targetCounts 3 default_weights) (viable opps (minScore cfg))
    \<and> map bucket (decide opps cfg) = [''educational'', ''educational'', ''topical'']
    \<and> selected_from ''affiliate'' (decide opps cfg) = 0"
proof -
  let ?vs = "viable opps (minScore cfg)"
  let ?E = "by_score_desc (filter (\<lambda>r. bucket (snd r) = ''educational'') ?vs)"
  let ?T = "by_score_desc (filter (\<lambda>r. bucket (snd r) = ''topical'') ?vs)"
  have lE: "2 \<le> length ?E"
    using assms(3) by (simp add: length_filter_viable)
  have lT: "1 \<le> length ?T"
    using assms(4) by (simp add: length_filter_viable)
  obtain a b where ab: "take 2 ?E = [a, b]" "a \<in> set ?E" "b \<in> set ?E"
    using take_2 [OF lE] by blast
  obtain t where t: "take 1 ?T = [t]" "t \<in> set ?T"
    using take_1 [OF lT] by blast
  have ba: "bucket (snd a) = ''educational''" and bb: "bucket (snd b) = ''educational''"
    and bt: "bucket (snd t) = ''topical''"
    using ab(2,3) t(2) by auto
  have fp: "first_pass 3 (targetCounts 3 default_weights) ?vs = take 2 ?E @ take 1 ?T"
    by (simp add: first_pass_unfold targets_of_three fill_bucket_take ab(1))
  have ne: "?vs \<noteq> []"
    using lE by auto
  have l3: "length (first_pass 3 (targetCounts 3 default_weights) ?vs) = 3"
    by (simp only: fp ab(1) t(1)) simp
  have sp: "second_pass 3 ?vs (first_pass 3 (targetCounts 3 default_weights) ?vs) =
      first_pass 3 (targetCounts 3 default_weights) ?vs"
    by (simp only: second_pass_def l3) simp
  have dr: "decide_refs opps cfg = first_pass 3 (targetCounts 3 default_weights) ?vs"
    using ne by (simp only: decide_refs_def Let_def assms(1,2) sp if_False)
  have d: "decide opps cfg = [snd a, snd b, snd t]"
    by (simp only: decide_def dr fp ab(1) t(1)) simp
  have tc: "targetCounts (maxArticles cfg) (bucketWeights cfg) =
      \<lparr>educational = 2, topical = 1, affiliate = 0\<rparr>"
    by (simp only: assms(1,2) targets_of_three)
  have mb: "map bucket (decide opps cfg) = [''educational'', ''educational'', ''topical'']"
    by (simp add: d ba bb bt)
  have sf: "selected_from ''affiliate'' (decide opps cfg) = 0"
    by (simp add: selected_from_def d ba bb bt)
  from tc fp dr mb sf show ?thesis
    by (intro conjI)
qed

text \<open>The theorem at four opportunities of which the affiliate one has the highest
  score.\<close>

theorem three_default_slots_witness:
  "decide four_opps DEFAULT_CONFIG =
     [opp ''e1'' ''educational'' 0.9, opp ''e2'' ''educational'' 0.5, opp ''t1'' ''topical'' 0.6]
   \<and> map bucket (decide four_opps DEFAULT_CONFIG) = [''educational'', ''educational'', ''topical'']
   \<and> selected_from ''affiliate'' (decide four_opps DEFAULT_CONFIG) = 0"
proof -
  have "map bucket (decide four_opps DEFAULT_CONFIG) = [''educational'', ''educational'', ''topical'']
    \<and> selected_from ''affiliate'' (decide four_opps DEFAULT_CONFIG) = 0"
    using three_default_slots [of DEFAULT_CONFIG four_opps]
    by (simp add: DEFAULT_CONFIG_def default_weights_def four_opps_def opp_def)
  moreover have "decide four_opps DEFAULT_CONFIG =
     [opp ''e1'' ''educational'' 0.9, opp ''e2'' ''educational'' 0.5, opp ''t1'' ''topical'' 0.6]"
    by code_simp
  ultimately show ?thesis by simp
qed

subsection \<open>Admission\<close>

text \<open>
  Claim C1, as amended. Admission looks at the score alone: every opportunity
  \<open>decide\<close> returns is one of the input with a score of at least \<open>minScore\<close>, and an
  opportunity of the input with such a score is returned whenever the viable ones do not
  exceed \<open>maxArticles\<close>, also when its slug is in the inventory. The inventory's slugs
  reach the scorer's prompt only; nothing in \<open>analyze\<close> or \<open>decide\<close> rejects a slug
  for being in the inventory.
\<close>

theorem admission_by_score_alone:
  "(x \<in> set (decide opps cfg) \<longrightarrow> x \<in> set opps \<and> minScore cfg \<le> score x)
   \<and> (x \<in> set opps \<and> minScore cfg \<le> score x \<and> slug x \<in> set (loadInventory w)
        \<and> int (length (filter (\<lambda>y. minScore cfg \<le> score y) opps)) \<le> maxArticles cfg
      \<longrightarrow> x \<in> set (decide opps cfg))"
proof -
  have sound: "x \<in> set (decide opps cfg) \<longrightarrow> x \<in> set opps \<and> minScore cfg \<le> score x"
    using set_decide [of opps cfg] by auto
  have complete: "x \<in> set opps \<and> minScore cfg \<le> score x \<and> slug x \<in> set (loadInventory w)
        \<and> int (length (filter (\<lambda>y. minScore cfg \<le> score y) opps)) \<le> maxArticles cfg
      \<longrightarrow> x \<in> set (decide opps cfg)"
  proof
    assume a: "x \<in> set opps \<and> minScore cfg \<le> score x \<and> slug x \<in> set (loadInventory w)
        \<and> int (length (filter (\<lambda>y. minScore cfg \<le> score y) opps)) \<le> maxArticles cfg"
    then have "length (filter (\<lambda>y. minScore cfg \<le> score y) opps) \<le> nat (maxArticles cfg)"
      by linarith
    then have "mset (decide opps cfg) = mset (filter (\<lambda>y. minScore cfg \<le> score y) opps)"
      by (rule mset_decide_all)
    then have "set (decide opps cfg) = set (filter (\<lambda>y. minScore cfg \<le> score y) opps)"
      by (rule mset_eq_setD)
    with a show "x \<in> set (decide opps cfg)"
      by simp
  qed
  from sound complete show ?thesis ..
qed

text \<open>The theorem at an opportunity whose slug the inventory holds, and at one below
  the minimum score.\<close>

theorem admission_by_score_alone_witness:
  "slug (opp ''e1'' ''educational'' 0.9) \<in> set (loadInventory ledger_world)
   \<and> opp ''e1'' ''educational'' 0.9 \<in> set (decide [opp ''e1'' ''educational'' 0.9, opp ''t1'' ''topical'' 0.2] DEFAULT_CONFIG)
   \<and> opp ''t1'' ''topical'' 0.2 \<notin> set (decide [opp ''e1'' ''educational'' 0.9, opp ''t1'' ''topical'' 0.2] DEFAULT_CONFIG)"
  using admission_by_score_alone [of "opp ''e1'' ''educational'' 0.9"
      "[opp ''e1'' ''educational'' 0.9, opp ''t1'' ''topical'' 0.2]" DEFAULT_CONFIG ledger_world]
    admission_by_score_alone [of "opp ''t1'' ''topical'' 0.2"
      "[opp ''e1'' ''educational'' 0.9, opp ''t1'' ''topical'' 0.2]" DEFAULT_CONFIG ledger_world]
  by (simp add: DEFAULT_CONFIG_def opp_def loadInventory_def ledger_world_def new_entry_def draft_def)

text \<open>
  Claim C1 as stated fails. The inventory holds the slug \<open>e1\<close>; the scorer recommends
  it again with score 0.9; \<open>analyze\<close> returns it, it is viable, and \<open>decide\<close> selects
  it.
\<close>

theorem ledger_slug_admitted:
  "analyze (test_env [(opp ''e1'' ''educational'' 0.9, [])] (\<lambda>a. None)) no_observations ledger_world
     = [opp ''e1'' ''educational'' 0.9]
   \<and> slug (opp ''e1'' ''educational'' 0.9) \<in> set (loadInventory ledger_world)
   \<and> map snd (viable [opp ''e1'' ''educational'' 0.9] (minScore DEFAULT_CONFIG)) = [opp ''e1'' ''educational'' 0.9]
   \<and> decide [opp ''e1'' ''educational'' 0.9] DEFAULT_CONFIG = [opp ''e1'' ''educational'' 0.9]"
  by code_simp

section \<open>Verification: mover detection (agent/observe.ts)\<close>

subsection \<open>The map of the previous snapshot\<close>

lemma js_Map_foldl:
  "foldl (\<lambda>mp kv. mp(fst kv \<mapsto> snd kv)) m es = m ++ map_of (rev es)"
proof (induction es arbitrary: m)
  case Nil
  then show ?case by simp
next
  case (Cons kv es)
  have "m(fst kv \<mapsto> snd kv) ++ map_of (rev es) = m ++ map_of (rev es @ [kv])"
    by (rule ext) (simp add: map_add_def split: option.split)
  then show ?case
    by (simp only: foldl_Cons Cons.IH rev.simps)
qed

lemma js_Map_map_of: "js_Map es = map_of (rev es)"
  by (simp only: js_Map_def js_Map_foldl empty_map_add)

text \<open>The key tells platform and id apart: no platform name is a prefix of the
  other.\<close>

lemma market_key_eq:
  "market_key m = market_key p \<longleftrightarrow> m_platform m = m_platform p \<and> m_id m = m_id p"
  by (cases "m_platform m"; cases "m_platform p") (auto simp: market_key_def)

text \<open>The counterpart of an item is the last item of the previous snapshot with its
  platform and id.\<close>

lemma previousMap_last:
  "js_Map (map (\<lambda>x. (market_key x, x)) previous) (market_key m) =
     find (\<lambda>x. m_platform x = m_platform m \<and> m_id x = m_id m) (rev previous)"
proof -
  have "map_of (map (\<lambda>x. (market_key x, x)) ys) (market_key m) =
      find (\<lambda>x. m_platform x = m_platform m \<and> m_id x = m_id m) ys" for ys
    by (induction ys) (auto simp: market_key_eq)
  from this [of "rev previous"] show ?thesis
    by (simp only: js_Map_map_of rev_map)
qed

text \<open>What \<open>detectMovers\<close> reports, by the test the code computes in binary64.\<close>

lemma movers_last_counterpart:
  "m \<in> set (detectMovers current (Some previous)) \<longleftrightarrow>
     m \<in> set current \<and>
     (case find (\<lambda>x. m_platform x = m_platform m \<and> m_id x = m_id m) (rev previous) of
        None \<Rightarrow> False
      | Some p \<Rightarrow> moved (yes_price m) (yes_price p))"
  by (simp add: detectMovers_def previousMap_last)

lemma detectMovers_cold_start: "detectMovers current None = []"
  by (simp add: detectMovers_def)

subsection \<open>The subtraction\<close>

text \<open>A mantissa of at most 53 bits is not rounded.\<close>

lemma round53_exact: "bitlen \<bar>m\<bar> \<le> 53 \<Longrightarrow> round53 m e = Double m e"
  by (simp add: round53_def)

text \<open>The pair \<open>Double m e\<close> stands for \<open>m * 2 ^ e\<close>, and \<open>dsub\<close> is the difference
  whenever the difference has a mantissa of at most 53 bits.\<close>

lemma dval_powi: "dval (Double m e) = of_int m * 2 powi e"
  by (simp add: power_int_def field_simps)

lemma dval_align:
  assumes "e \<le> e1"
  shows "dval (Double (m1 * 2 ^ nat (e1 - e)) e) = dval (Double m1 e1)"
proof -
  have "(2::real) powi e1 = 2 powi (e1 - e) * 2 powi e"
    by (simp add: power_int_add [symmetric])
  moreover have "(2::real) powi (e1 - e) = 2 ^ nat (e1 - e)"
    using assms by (simp add: power_int_def)
  ultimately have "(2::real) powi e1 = 2 ^ nat (e1 - e) * 2 powi e"
    by simp
  then show ?thesis
    by (simp only: dval_powi) simp
qed

lemma dval_diff:
  "dval (Double (m1 * 2 ^ nat (e1 - min e1 e2) - m2 * 2 ^ nat (e2 - min e1 e2)) (min e1 e2)) =
     dval (Double m1 e1) - dval (Double m2 e2)"
proof -
  let ?e = "min e1 e2"
  have "dval (Double (m1 * 2 ^ nat (e1 - ?e) - m2 * 2 ^ nat (e2 - ?e)) ?e) =
      dval (Double (m1 * 2 ^ nat (e1 - ?e)) ?e) - dval (Double (m2 * 2 ^ nat (e2 - ?e)) ?e)"
    by (simp only: dval_powi) (simp add: algebra_simps)
  also have "\<dots> = dval (Double m1 e1) - dval (Double m2 e2)"
    by (simp only: dval_align [of ?e e1 m1] dval_align [of ?e e2 m2] min.cobounded1 min.cobounded2)
  finally show ?thesis .
qed

lemma dsub_exact:
  assumes "bitlen \<bar>m1 * 2 ^ nat (e1 - min e1 e2) - m2 * 2 ^ nat (e2 - min e1 e2)\<bar> \<le> 53"
  shows "dval (dsub (Double m1 e1) (Double m2 e2)) = dval (Double m1 e1) - dval (Double m2 e2)"
proof -
  have "dsub (Double m1 e1) (Double m2 e2) =
      Double (m1 * 2 ^ nat (e1 - min e1 e2) - m2 * 2 ^ nat (e2 - min e1 e2)) (min e1 e2)"
    using assms by (simp add: Let_def round53_exact)
  then show ?thesis
    by (simp only: dval_diff)
qed

lemma dval_dabs: "dval (dabs x) = \<bar>dval x\<bar>"
  by (cases x) (simp add: abs_mult abs_divide)

text \<open>When the subtraction needs no rounding, the test compares the distance of the two
  binary64 prices with the binary64 number of 0.10.\<close>

lemma moved_exact:
  assumes "bitlen \<bar>m1 * 2 ^ nat (e1 - min e1 e2) - m2 * 2 ^ nat (e2 - min e1 e2)\<bar> \<le> 53"
  shows "moved (Double m1 e1) (Double m2 e2) \<longleftrightarrow>
     dval literal_0_10 < \<bar>dval (Double m1 e1) - dval (Double m2 e2)\<bar>"
  by (simp only: moved_def Let_def dval_dabs dsub_exact [OF assms])

text \<open>The prices of the examples are the binary64 numbers of their decimals.\<close>

lemma example_prices:
  "reads_as 0.30 price_0_30" "reads_as 0.40 price_0_40" "reads_as 0.50 price_0_50"
  "reads_as 0.60 price_0_60" "reads_as 0.65 price_0_65" "reads_as 0.90 price_0_90"
  "reads_as 0.10 literal_0_10"
  by (simp_all add: price_0_30_def price_0_40_def price_0_50_def price_0_60_def
      price_0_65_def price_0_90_def literal_0_10_def)

text \<open>
  Of the two steps of one tenth in the examples, the code reports the one from 0.30 to
  0.40, whose difference in binary64 is above the binary64 number of 0.10, and not the
  one from 0.50 to 0.60, whose difference is below it.
\<close>

lemma example_movers:
  "detectMovers current_markets (Some previous_markets) =
     [market Kalshi ''A'' price_0_65, market Polymarket ''A'' price_0_40]"
  by code_simp

subsection \<open>A move of exactly ten cents\<close>


section \<open>Verification: the inventory (agent/submit.ts)\<close>

lemma add_articles_take:
  "take (length inventory) (add_articles t inventory articles) = inventory"
proof (induction articles arbitrary: inventory)
  case Nil
  then show ?case by simp
next
  case (Cons a articles)
  show ?case
  proof (cases "d_slug a \<in> set (map i_slug inventory)")
    case True
    then show ?thesis using Cons.IH [of inventory] by simp
  next
    case False
    have "take (length inventory) (add_articles t (inventory @ [new_entry t a]) articles) =
        take (length inventory) (take (length (inventory @ [new_entry t a]))
          (add_articles t (inventory @ [new_entry t a]) articles))"
      by (simp add: min_def)
    also have "\<dots> = take (length inventory) (inventory @ [new_entry t a])"
      by (simp only: Cons.IH)
    finally show ?thesis
      using False by simp
  qed
qed

lemma i_slug_new_entry [simp]: "i_slug (new_entry t a) = d_slug a"
  by (simp add: new_entry_def)

lemma add_articles_distinct:
  "distinct (map i_slug inventory) \<Longrightarrow> distinct (map i_slug (add_articles t inventory articles))"
proof (induction articles arbitrary: inventory)
  case Nil
  then show ?case by simp
next
  case (Cons a articles)
  show ?case
  proof (cases "d_slug a \<in> set (map i_slug inventory)")
    case True
    then show ?thesis using Cons by simp
  next
    case False
    then have "distinct (map i_slug (inventory @ [new_entry t a]))"
      using Cons.prems by simp
    then show ?thesis
      using False Cons.IH [of "inventory @ [new_entry t a]"] by simp
  qed
qed


lemma add_articles_known:
  "set (map d_slug articles) \<subseteq> set (map i_slug inventory) \<Longrightarrow>
     add_articles t inventory articles = inventory"
  by (induction articles) auto

text \<open>The entries of one slug after the update: those the inventory had, and, when it
  had none, one entry made from the first article of that slug.\<close>

lemma add_articles_of_slug:
  "filter (\<lambda>x. i_slug x = s) (add_articles t inventory articles) =
     filter (\<lambda>x. i_slug x = s) inventory @
     (if s \<in> set (map i_slug inventory) then []
      else case find (\<lambda>a. d_slug a = s) articles of None \<Rightarrow> [] | Some a \<Rightarrow> [new_entry t a])"
proof (induction articles arbitrary: inventory)
  case Nil
  then show ?case by simp
next
  case (Cons a articles)
  show ?case
  proof (cases "d_slug a \<in> set (map i_slug inventory)")
    case True
    then show ?thesis
      using Cons.IH [of inventory] by auto
  next
    case False
    then show ?thesis
      using Cons.IH [of "inventory @ [new_entry t a]"] by auto
  qed
qed

subsection \<open>The update of the file\<close>

lemma updateInventory_array:
  "read_array (inventory_file w) = JArray inventory \<Longrightarrow>
     updateInventory articles e w =
       (Inr (), write_inventory (JArray (add_articles (now e) inventory articles))
                  (mkdirSync ''data'' w))"
  by (simp add: updateInventory_def)

text \<open>On a value that is no array the first article makes the update throw, and nothing
  is written.\<close>

lemma updateInventory_no_array:
  "read_array (inventory_file w) = JNull \<or> read_array (inventory_file w) = JOther \<Longrightarrow>
     articles \<noteq> [] \<Longrightarrow> updateInventory articles e w = (Inl TypeError, w)"
  by (auto simp: updateInventory_def)

lemma inventory_file_write_inventory [simp]:
  "inventory_file (write_inventory v w) = Stored v"
  by (simp add: write_inventory_def)

lemma inventory_file_mkdirSync [simp]: "inventory_file (mkdirSync d w) = inventory_file w"
  by (simp add: mkdirSync_def)

lemma decisions_file_write_inventory [simp]:
  "decisions_file (write_inventory v w) = decisions_file w"
  by (simp add: write_inventory_def)

lemma decisions_file_mkdirSync [simp]: "decisions_file (mkdirSync d w) = decisions_file w"
  by (simp add: mkdirSync_def)

text \<open>
  Claim C7. Let the stored inventory parse to an array of entries with pairwise distinct
  slugs. Then \<open>updateInventory\<close> returns for every batch of articles, and the inventory it
  stores still holds pairwise distinct slugs; it starts with the entries it had,
  unchanged and in their order; the entries added have slugs the inventory did not hold;
  and a batch whose slugs are all in the inventory leaves it as it was.
\<close>

theorem updateInventory_keeps_entries:
  assumes "inventory_file w = Stored (JArray inventory)"
    and "distinct (map i_slug inventory)"
  shows "fst (updateInventory articles e w) = Inr ()
     \<and> inventory_file (snd (updateInventory articles e w)) =
         Stored (JArray (add_articles (now e) inventory articles))
     \<and> distinct (map i_slug (add_articles (now e) inventory articles))
     \<and> take (length inventory) (add_articles (now e) inventory articles) = inventory
     \<and> set (map i_slug (drop (length inventory) (add_articles (now e) inventory articles)))
          \<inter> set (map i_slug inventory) = {}
     \<and> (set (map d_slug articles) \<subseteq> set (map i_slug inventory) \<longrightarrow>
          add_articles (now e) inventory articles = inventory)"
proof -
  let ?new = "add_articles (now e) inventory articles"
  have ra: "read_array (inventory_file w) = JArray inventory"
    using assms(1) by simp
  have u: "updateInventory articles e w =
      (Inr (), write_inventory (JArray ?new) (mkdirSync ''data'' w))"
    using ra by (rule updateInventory_array)
  have r: "fst (updateInventory articles e w) = Inr ()"
    by (simp add: u)
  have f: "inventory_file (snd (updateInventory articles e w)) = Stored (JArray ?new)"
    by (simp add: u)
  have d: "distinct (map i_slug ?new)"
    using assms(2) by (rule add_articles_distinct)
  have t: "take (length inventory) ?new = inventory"
    by (rule add_articles_take)
  have "?new = take (length inventory) ?new @ drop (length inventory) ?new"
    by simp
  then have split: "?new = inventory @ drop (length inventory) ?new"
    by (simp only: t)
  have "distinct (map i_slug (inventory @ drop (length inventory) ?new))"
    using d split by simp
  then have dj: "set (map i_slug (drop (length inventory) ?new)) \<inter> set (map i_slug inventory) = {}"
    by auto
  have k: "set (map d_slug articles) \<subseteq> set (map i_slug inventory) \<longrightarrow> ?new = inventory"
  proof
    assume "set (map d_slug articles) \<subseteq> set (map i_slug inventory)"
    then show "?new = inventory"
      by (rule add_articles_known)
  qed
  from r f d t dj k show ?thesis
    by (intro conjI)
qed

text \<open>The theorem at an inventory holding \<open>e1\<close> and the batch of \<open>e1\<close> alone; the batch
  of \<open>e1\<close> and \<open>t1\<close> adds the entry of \<open>t1\<close> only.\<close>

theorem updateInventory_keeps_entries_witness:
  "inventory_file (snd (updateInventory [draft ''e1'' ''educational'', draft ''t1'' ''topical'']
       (test_env [] (\<lambda>a. None)) ledger_world)) =
     Stored (JArray
       [new_entry ''2025-12-01T00:00:00.000Z'' (draft ''e1'' ''educational''),
        new_entry ''2026-01-01T00:00:00.000Z'' (draft ''t1'' ''topical'')])
   \<and> inventory_file (snd (updateInventory [draft ''e1'' ''educational'']
       (test_env [] (\<lambda>a. None)) ledger_world)) =
     Stored (JArray [new_entry ''2025-12-01T00:00:00.000Z'' (draft ''e1'' ''educational'')])"
proof -
  have "inventory_file (snd (updateInventory [draft ''e1'' ''educational'']
       (test_env [] (\<lambda>a. None)) ledger_world)) =
     Stored (JArray [new_entry ''2025-12-01T00:00:00.000Z'' (draft ''e1'' ''educational'')])"
    using updateInventory_keeps_entries [of ledger_world
        "[new_entry ''2025-12-01T00:00:00.000Z'' (draft ''e1'' ''educational'')]"
        "[draft ''e1'' ''educational'']" "test_env [] (\<lambda>a. None)"]
    by (simp add: ledger_world_def empty_world_def draft_def)
  moreover have "inventory_file (snd (updateInventory [draft ''e1'' ''educational'', draft ''t1'' ''topical'']
       (test_env [] (\<lambda>a. None)) ledger_world)) =
     Stored (JArray
       [new_entry ''2025-12-01T00:00:00.000Z'' (draft ''e1'' ''educational''),
        new_entry ''2026-01-01T00:00:00.000Z'' (draft ''t1'' ''topical'')])"
    by code_simp
  ultimately show ?thesis by simp
qed

subsection \<open>Articles of one slug in a batch\<close>

text \<open>
  Claim C10 as stated fails. The inventory holds the slug \<open>e1\<close>; a batch with two
  articles of slug \<open>e1\<close> adds no entry for it.
\<close>

theorem two_same_slug_ledger_has_it:
  "inventory_file
     (snd (updateInventory [draft ''e1'' ''educational'', draft ''e1'' ''topical'']
        (test_env [] (\<lambda>a. None)) ledger_world))
   = inventory_file ledger_world
   \<and> inventory_file ledger_world =
       Stored (JArray [new_entry ''2025-12-01T00:00:00.000Z'' (draft ''e1'' ''educational'')])"
  by code_simp

text \<open>
  Claim C10, as amended. Let the inventory file be missing, hold text that does not parse,
  or hold an array of entries, and let \<open>inventory\<close> be what is read from it (\<open>[]\<close> in the
  first two cases). Let \<open>a\<close> be the first article of slug \<open>s\<close> in the batch, however
  many articles of that slug follow. Then \<open>updateInventory\<close> returns and stores an
  array. If \<open>inventory\<close> holds no entry of slug \<open>s\<close>, the stored array holds exactly one,
  made from \<open>a\<close> (its title, bucket, category, keyword and word count). If \<open>inventory\<close>
  holds the slug, the entries of that slug are as before and none is added.
\<close>

theorem same_slug_one_entry:
  assumes "find (\<lambda>x. d_slug x = s) articles = Some a"
    and "read_array (inventory_file w) = JArray inventory"
  shows "fst (updateInventory articles e w) = Inr ()
       \<and> inventory_file (snd (updateInventory articles e w)) =
           Stored (JArray (add_articles (now e) inventory articles))
       \<and> (s \<notin> set (map i_slug inventory) \<longrightarrow>
            filter (\<lambda>x. i_slug x = s) (add_articles (now e) inventory articles) =
              [new_entry (now e) a])
       \<and> (s \<in> set (map i_slug inventory) \<longrightarrow>
            filter (\<lambda>x. i_slug x = s) (add_articles (now e) inventory articles) =
            filter (\<lambda>x. i_slug x = s) inventory)"
proof -
  have none: "filter (\<lambda>x. i_slug x = s) inv = []" if "s \<notin> set (map i_slug inv)"
    for inv :: "InventoryEntry list"
    using that by (induction inv) auto
  have u: "updateInventory articles e w =
      (Inr (), write_inventory (JArray (add_articles (now e) inventory articles))
                 (mkdirSync ''data'' w))"
    using assms(2) by (rule updateInventory_array)
  show ?thesis
    using assms(1) none [of inventory]
    by (simp add: u add_articles_of_slug)
qed

text \<open>The theorem at a batch with two articles of slug \<open>t1\<close>, new to the inventory, and
  one of slug \<open>e1\<close>, which the inventory holds.\<close>

theorem same_slug_one_entry_witness:
  "inventory_file (snd (updateInventory
        [draft ''t1'' ''topical'', draft ''e1'' ''educational'', draft ''t1'' ''affiliate'']
        (test_env [] (\<lambda>a. None)) ledger_world)) =
     Stored (JArray (add_articles ''2026-01-01T00:00:00.000Z''
       [new_entry ''2025-12-01T00:00:00.000Z'' (draft ''e1'' ''educational'')]
       [draft ''t1'' ''topical'', draft ''e1'' ''educational'', draft ''t1'' ''affiliate'']))
   \<and> filter (\<lambda>x. i_slug x = ''t1'')
       (add_articles ''2026-01-01T00:00:00.000Z''
         [new_entry ''2025-12-01T00:00:00.000Z'' (draft ''e1'' ''educational'')]
         [draft ''t1'' ''topical'', draft ''e1'' ''educational'', draft ''t1'' ''affiliate''])
     = [new_entry ''2026-01-01T00:00:00.000Z'' (draft ''t1'' ''topical'')]
   \<and> filter (\<lambda>x. i_slug x = ''e1'')
       (add_articles ''2026-01-01T00:00:00.000Z''
         [new_entry ''2025-12-01T00:00:00.000Z'' (draft ''e1'' ''educational'')]
         [draft ''t1'' ''topical'', draft ''e1'' ''educational'', draft ''t1'' ''affiliate''])
     = [new_entry ''2025-12-01T00:00:00.000Z'' (draft ''e1'' ''educational'')]"
  using same_slug_one_entry [of "''t1''"
      "[draft ''t1'' ''topical'', draft ''e1'' ''educational'', draft ''t1'' ''affiliate'']"
      "draft ''t1'' ''topical''" ledger_world
      "[new_entry ''2025-12-01T00:00:00.000Z'' (draft ''e1'' ''educational'')]"
      "test_env [] (\<lambda>a. None)"]
    same_slug_one_entry [of "''e1''"
      "[draft ''t1'' ''topical'', draft ''e1'' ''educational'', draft ''t1'' ''affiliate'']"
      "draft ''e1'' ''educational''" ledger_world
      "[new_entry ''2025-12-01T00:00:00.000Z'' (draft ''e1'' ''educational'')]"
      "test_env [] (\<lambda>a. None)"]
  by (simp add: draft_def ledger_world_def empty_world_def test_env_def new_entry_def)

section \<open>Verification: publication (agent/submit.ts)\<close>

subsection \<open>Paths\<close>

lemma bucketDir_inherited: "b \<in> set object_prototype_names \<Longrightarrow> bucketDir b = None"
  by (auto simp: object_prototype_names_def bucketDir_def)

lemma getContentPath_plain:
  "plain_bucket article \<Longrightarrow>
     getContentPath article w = (Inr (contentPath article), mkdirSync (contentDir article) w)"
  by (simp add: getContentPath_def plain_bucket_def dir_of_def contentPath_def contentDir_def
      Let_def split: option.splits)

lemma getContentPath_inherited:
  "\<not> plain_bucket article \<Longrightarrow> getContentPath article w = (Inl TypeError, w)"
  by (simp add: getContentPath_def plain_bucket_def dir_of_def bucketDir_inherited)



subsection \<open>Step 1: the drafts\<close>

lemma writeDraft_plain:
  "plain_bucket article \<Longrightarrow>
     writeDraft article w =
       (Inr (contentPath article),
        write_content (contentPath article) (content article) (mkdirSync (contentDir article) w))"
  by (simp add: writeDraft_def getContentPath_plain)

lemma writeDraft_inherited:
  "\<not> plain_bucket article \<Longrightarrow> writeDraft article w = (Inl TypeError, w)"
  by (simp add: writeDraft_def getContentPath_inherited)

lemma trace_write_content [simp]:
  "trace (write_content p t (mkdirSync d w)) = trace w @ [MkDir d, WriteFile p (Text t)]"
  by (simp add: write_content_def mkdirSync_def)

lemma inventory_file_write_content [simp]:
  "inventory_file (write_content p t w) = inventory_file w"
  by (simp add: write_content_def)

lemma decisions_file_write_content [simp]:
  "decisions_file (write_content p t w) = decisions_file w"
  by (simp add: write_content_def)

text \<open>The loop returns when every bucket is plain, and throws at the first that is not.\<close>

lemma fst_writeDrafts:
  "fst (writeDrafts articles w) =
     (if list_all plain_bucket articles then Inr () else Inl TypeError)"
proof (induction articles arbitrary: w)
  case Nil
  show ?case by simp
next
  case (Cons a articles)
  show ?case
  proof (cases "plain_bucket a")
    case True
    then show ?thesis
      by (simp add: writeDraft_plain Cons.IH)
  next
    case False
    then show ?thesis
      by (simp add: writeDraft_inherited)
  qed
qed

lemma trace_writeDrafts:
  "trace (snd (writeDrafts articles w)) =
     trace w @ concat (map (\<lambda>a. [MkDir (contentDir a), WriteFile (contentPath a) (Text (content a))])
                         (takeWhile plain_bucket articles))"
proof (induction articles arbitrary: w)
  case Nil
  show ?case by simp
next
  case (Cons a articles)
  show ?case
  proof (cases "plain_bucket a")
    case True
    then show ?thesis
      by (simp add: writeDraft_plain Cons.IH)
  next
    case False
    then show ?thesis
      by (simp add: writeDraft_inherited)
  qed
qed

lemma inventory_file_writeDrafts:
  "inventory_file (snd (writeDrafts articles w)) = inventory_file w"
proof (induction articles arbitrary: w)
  case Nil
  show ?case by simp
next
  case (Cons a articles)
  show ?case
  proof (cases "plain_bucket a")
    case True
    then show ?thesis
      by (simp add: writeDraft_plain Cons.IH)
  next
    case False
    then show ?thesis
      by (simp add: writeDraft_inherited)
  qed
qed

lemma decisions_file_writeDrafts:
  "decisions_file (snd (writeDrafts articles w)) = decisions_file w"
proof (induction articles arbitrary: w)
  case Nil
  show ?case by simp
next
  case (Cons a articles)
  show ?case
  proof (cases "plain_bucket a")
    case True
    then show ?thesis
      by (simp add: writeDraft_plain Cons.IH)
  next
    case False
    then show ?thesis
      by (simp add: writeDraft_inherited)
  qed
qed

subsection \<open>Step 3: the pull request\<close>

lemma content_paths_plain:
  "list_all plain_bucket articles \<Longrightarrow>
     fst (content_paths articles w) = Inr ()
     \<and> inventory_file (snd (content_paths articles w)) = inventory_file w
     \<and> decisions_file (snd (content_paths articles w)) = decisions_file w
     \<and> trace (snd (content_paths articles w)) = trace w @ map MkDir (map contentDir articles)"
proof (induction articles arbitrary: w)
  case Nil
  show ?case by simp
next
  case (Cons a articles)
  then have "plain_bucket a" and rest: "list_all plain_bucket articles"
    by simp_all
  then show ?case
    using Cons.IH [OF rest, of "mkdirSync (contentDir a) w"]
    by (simp add: getContentPath_plain mkdirSync_def)
qed

lemma createPullRequest_plain:
  assumes "list_all plain_bucket articles"
  shows "fst (createPullRequest articles e w) = Inr ()"
    and "inventory_file (snd (createPullRequest articles e w)) = inventory_file w"
    and "decisions_file (snd (createPullRequest articles e w)) = decisions_file w"
    and "\<exists>dirs. trace (snd (createPullRequest articles e w)) = trace w @ map MkDir dirs"
proof -
  note cp = content_paths_plain [OF assms, of w]
  show "fst (createPullRequest articles e w) = Inr ()"
    using cp by (simp add: createPullRequest_def)
  show "inventory_file (snd (createPullRequest articles e w)) = inventory_file w"
    using cp by (simp add: createPullRequest_def)
  show "decisions_file (snd (createPullRequest articles e w)) = decisions_file w"
    using cp by (simp add: createPullRequest_def)
  show "\<exists>dirs. trace (snd (createPullRequest articles e w)) = trace w @ map MkDir dirs"
  proof (cases "GITHUB_TOKEN e")
    case True
    then have "trace (snd (createPullRequest articles e w)) =
        trace w @ map MkDir (map contentDir articles)"
      using cp by (simp add: createPullRequest_def)
    then show ?thesis ..
  next
    case False
    then have "trace (snd (createPullRequest articles e w)) = trace w @ map MkDir []"
      by (simp add: createPullRequest_def)
    then show ?thesis ..
  qed
qed

subsection \<open>What \<open>submit\<close> leaves behind\<close>

lemma filter_is_write_MkDir [simp]: "filter is_write (map MkDir dirs) = []"
  by (induction dirs) auto

lemma filter_is_inventory_write_MkDir [simp]: "filter is_inventory_write (map MkDir dirs) = []"
  by (induction dirs) auto

lemma filter_is_write_drafts [simp]:
  "filter is_write (concat (map (\<lambda>a. [MkDir (contentDir a), WriteFile (contentPath a) (Text (content a))]) articles))
     = map (\<lambda>a. WriteFile (contentPath a) (Text (content a))) articles"
  by (induction articles) auto

lemma filter_is_inventory_write_drafts [simp]:
  "filter is_inventory_write (concat (map (\<lambda>a. [MkDir (contentDir a), WriteFile (contentPath a) (Text (content a))]) articles))
     = []"
  by (induction articles) auto


text \<open>Plain buckets: \<open>submit\<close> goes on to the inventory.\<close>

lemma submit_plain:
  assumes "list_all plain_bucket articles"
  shows "submit articles e w =
     (case updateInventory articles e (snd (writeDrafts articles w)) of
        (Inl err, w2) \<Rightarrow> (Inl err, w2)
      | (Inr u', w2) \<Rightarrow>
          if CI e
          then (case createGitBranch e of
                  Inl err \<Rightarrow> (Inl err, w2)
                | Inr branchName \<Rightarrow> createPullRequest articles e w2)
          else (Inr (), w2))"
proof -
  obtain r w1 where wd: "writeDrafts articles w = (r, w1)"
    by (cases "writeDrafts articles w")
  have "r = Inr ()"
    using fst_writeDrafts [of articles w] assms wd by simp
  then show ?thesis
    by (simp add: submit_def wd)
qed

text \<open>Plain buckets and an inventory that reads as an array.\<close>

lemma submit_array:
  assumes "list_all plain_bucket articles"
    and "read_array (inventory_file w) = JArray inventory"
  shows "fst (submit articles e w) = (if CI e \<and> \<not> git_ok e then Inl GitError else Inr ())"
    and "inventory_file (snd (submit articles e w)) =
           Stored (JArray (add_articles (now e) inventory articles))"
    and "decisions_file (snd (submit articles e w)) = decisions_file w"
    and "\<exists>dirs. trace (snd (submit articles e w)) =
           trace w
           @ concat (map (\<lambda>a. [MkDir (contentDir a), WriteFile (contentPath a) (Text (content a))]) articles)
           @ [MkDir ''data'',
              WriteFile inventoryPath (InventoryJson (JArray (add_articles (now e) inventory articles)))]
           @ map MkDir dirs"
proof -
  let ?w1 = "snd (writeDrafts articles w)"
  let ?w2 = "write_inventory (JArray (add_articles (now e) inventory articles)) (mkdirSync ''data'' ?w1)"
  have tw: "takeWhile plain_bucket articles = articles"
    using assms(1) by (simp add: list_all_iff)
  have "read_array (inventory_file ?w1) = JArray inventory"
    using assms(2) by (simp add: inventory_file_writeDrafts)
  then have u: "updateInventory articles e ?w1 = (Inr (), ?w2)"
    by (rule updateInventory_array)
  have t2: "trace ?w2 =
      trace w
      @ concat (map (\<lambda>a. [MkDir (contentDir a), WriteFile (contentPath a) (Text (content a))]) articles)
      @ [MkDir ''data'',
         WriteFile inventoryPath (InventoryJson (JArray (add_articles (now e) inventory articles)))]"
    by (simp add: write_inventory_def mkdirSync_def trace_writeDrafts tw)
  have i2: "inventory_file ?w2 = Stored (JArray (add_articles (now e) inventory articles))"
    by simp
  have d2: "decisions_file ?w2 = decisions_file w"
    by (simp add: decisions_file_writeDrafts)
  note pr = createPullRequest_plain [OF assms(1), of e ?w2]
  obtain dirs where prt: "trace (snd (createPullRequest articles e ?w2)) = trace ?w2 @ map MkDir dirs"
    using pr(4) by blast
  show "fst (submit articles e w) = (if CI e \<and> \<not> git_ok e then Inl GitError else Inr ())"
    using pr(1) by (simp add: submit_plain [OF assms(1)] u createGitBranch_def)
  show "inventory_file (snd (submit articles e w)) =
           Stored (JArray (add_articles (now e) inventory articles))"
    using pr(2) i2 by (simp add: submit_plain [OF assms(1)] u createGitBranch_def)
  show "decisions_file (snd (submit articles e w)) = decisions_file w"
    using pr(3) d2 by (simp add: submit_plain [OF assms(1)] u createGitBranch_def)
  show "\<exists>dirs. trace (snd (submit articles e w)) =
           trace w
           @ concat (map (\<lambda>a. [MkDir (contentDir a), WriteFile (contentPath a) (Text (content a))]) articles)
           @ [MkDir ''data'',
              WriteFile inventoryPath (InventoryJson (JArray (add_articles (now e) inventory articles)))]
           @ map MkDir dirs"
  proof (cases "CI e \<and> git_ok e")
    case True
    then have "trace (snd (submit articles e w)) = trace ?w2 @ map MkDir dirs"
      by (simp add: submit_plain [OF assms(1)] u createGitBranch_def prt)
    then show ?thesis
      by (intro exI [of _ dirs]) (simp only: t2 append_assoc)
  next
    case False
    then have "trace (snd (submit articles e w)) = trace ?w2 @ map MkDir []"
      by (auto simp: submit_plain [OF assms(1)] u createGitBranch_def)
    then show ?thesis
      by (intro exI [of _ "[]"]) (simp only: t2 append_assoc)
  qed
qed



subsection \<open>The order of the writes\<close>




section \<open>Verification: one run (agent/index.ts)\<close>

lemma create_all_three:
  assumes "generator e a1 = Some r1" and "generator e a2 = None" and "generator e a3 = Some r3"
  shows "create_all e [a1, a2, a3] [] = [draft_of a1 r1, draft_of a3 r3]"
  using assms by (simp add: create_def)

lemma inventory_file_write_decisions [simp]:
  "inventory_file (write_decisions logs w) = inventory_file w"
  by (simp add: write_decisions_def)

lemma decisions_file_write_decisions [simp]:
  "decisions_file (write_decisions logs w) = Stored (JArray logs)"
  by (simp add: write_decisions_def)

text \<open>Whatever follows \<open>submit\<close> leaves the inventory as \<open>submit\<close> left it.\<close>

lemma inventory_file_produce:
  assumes "create_all e assignments [] = drafts" and "drafts \<noteq> []"
  shows "inventory_file (snd (produce e obs opps assignments w)) =
     inventory_file (snd (submit drafts e w))"
proof -
  obtain r w1 where s: "submit drafts e w = (r, w1)"
    by (cases "submit drafts e w")
  show ?thesis
    using assms
    by (cases r; cases "read_array (decisions_file w1)") (simp_all add: produce_def Let_def s)
qed

text \<open>When \<open>submit\<close> returns and the decisions file reads as an array, the run appends
  its entry and completes.\<close>

lemma produce_completed:
  assumes "create_all e assignments [] = drafts" and "drafts \<noteq> []"
    and "fst (submit drafts e w) = Inr ()"
    and "read_array (decisions_file (snd (submit drafts e w))) = JArray logs"
  shows "produce e obs opps assignments w =
     (Completed,
      write_decisions (logs @ [logEntry e obs opps assignments drafts]) (snd (submit drafts e w)))"
proof -
  obtain r w1 where s: "submit drafts e w = (r, w1)"
    by (cases "submit drafts e w")
  have "r = Inr ()" and "read_array (decisions_file w1) = JArray logs"
    using assms(3,4) s by simp_all
  then show ?thesis
    using assms(1,2) by (simp add: produce_def Let_def s)
qed

text \<open>
  Claim C2, as amended. Let generation throw for the second of three assignments and
  return for the first and the third. Then the loop goes on past the failure and produces
  the two drafts. Let, further, neither draft's bucket be a property name inherited from
  \<open>Object.prototype\<close>, and let the inventory file be missing, not parse or hold an array
  of entries. Then the inventory after the run is what was read with an entry added for
  each draft whose slug it does not yet hold: two entries when the two slugs differ and
  the inventory holds neither. If moreover the git commands succeed when the run is in
  CI, and the decisions file is missing, does not parse or holds an array, the run
  completes and appends one entry to the decisions log, with three selected assignments
  and two produced drafts; the entry has no field for failures, which show as the
  difference only.
\<close>

theorem second_of_three_fails:
  assumes "generator e a1 = Some r1" and "generator e a2 = None" and "generator e a3 = Some r3"
  shows "create_all e [a1, a2, a3] [] = [draft_of a1 r1, draft_of a3 r3]
     \<and> (plain_bucket (draft_of a1 r1) \<and> plain_bucket (draft_of a3 r3)
          \<and> read_array (inventory_file w) = JArray inventory \<longrightarrow>
         inventory_file (snd (produce e obs opps [a1, a2, a3] w)) =
           Stored (JArray (add_articles (now e) inventory [draft_of a1 r1, draft_of a3 r3]))
         \<and> (slug a1 \<noteq> slug a3 \<and> slug a1 \<notin> set (map i_slug inventory)
              \<and> slug a3 \<notin> set (map i_slug inventory) \<longrightarrow>
            add_articles (now e) inventory [draft_of a1 r1, draft_of a3 r3] =
              inventory @ [new_entry (now e) (draft_of a1 r1), new_entry (now e) (draft_of a3 r3)]))
     \<and> (plain_bucket (draft_of a1 r1) \<and> plain_bucket (draft_of a3 r3)
          \<and> read_array (inventory_file w) = JArray inventory
          \<and> (CI e \<longrightarrow> git_ok e) \<and> read_array (decisions_file w) = JArray logs \<longrightarrow>
         fst (produce e obs opps [a1, a2, a3] w) = Completed
         \<and> decisions_file (snd (produce e obs opps [a1, a2, a3] w)) =
             Stored (JArray (logs @ [logEntry e obs opps [a1, a2, a3] [draft_of a1 r1, draft_of a3 r3]]))
         \<and> length (log_selected (logEntry e obs opps [a1, a2, a3] [draft_of a1 r1, draft_of a3 r3])) = 3
         \<and> length (log_produced (logEntry e obs opps [a1, a2, a3] [draft_of a1 r1, draft_of a3 r3])) = 2)"
proof -
  let ?drafts = "[draft_of a1 r1, draft_of a3 r3]"
  let ?run = "produce e obs opps [a1, a2, a3] w"
  have c: "create_all e [a1, a2, a3] [] = ?drafts"
    using assms by (rule create_all_three)
  have ne: "?drafts \<noteq> []"
    by simp
  have inv: "plain_bucket (draft_of a1 r1) \<and> plain_bucket (draft_of a3 r3)
          \<and> read_array (inventory_file w) = JArray inventory \<longrightarrow>
         inventory_file (snd ?run) = Stored (JArray (add_articles (now e) inventory ?drafts))
         \<and> (slug a1 \<noteq> slug a3 \<and> slug a1 \<notin> set (map i_slug inventory)
              \<and> slug a3 \<notin> set (map i_slug inventory) \<longrightarrow>
            add_articles (now e) inventory ?drafts =
              inventory @ [new_entry (now e) (draft_of a1 r1), new_entry (now e) (draft_of a3 r3)])"
  proof
    assume a: "plain_bucket (draft_of a1 r1) \<and> plain_bucket (draft_of a3 r3)
          \<and> read_array (inventory_file w) = JArray inventory"
    then have pl: "list_all plain_bucket ?drafts" and ra: "read_array (inventory_file w) = JArray inventory"
      by simp_all
    have "inventory_file (snd ?run) = inventory_file (snd (submit ?drafts e w))"
      by (rule inventory_file_produce [OF c ne])
    also have "\<dots> = Stored (JArray (add_articles (now e) inventory ?drafts))"
      by (rule submit_array(2) [OF pl ra])
    finally have 1: "inventory_file (snd ?run) = Stored (JArray (add_articles (now e) inventory ?drafts))" .
    have 2: "slug a1 \<noteq> slug a3 \<and> slug a1 \<notin> set (map i_slug inventory)
              \<and> slug a3 \<notin> set (map i_slug inventory) \<longrightarrow>
            add_articles (now e) inventory ?drafts =
              inventory @ [new_entry (now e) (draft_of a1 r1), new_entry (now e) (draft_of a3 r3)]"
      by (auto simp: draft_of_def)
    from 1 2 show "inventory_file (snd ?run) = Stored (JArray (add_articles (now e) inventory ?drafts))
         \<and> (slug a1 \<noteq> slug a3 \<and> slug a1 \<notin> set (map i_slug inventory)
              \<and> slug a3 \<notin> set (map i_slug inventory) \<longrightarrow>
            add_articles (now e) inventory ?drafts =
              inventory @ [new_entry (now e) (draft_of a1 r1), new_entry (now e) (draft_of a3 r3)])"
      by (intro conjI)
  qed
  have log: "plain_bucket (draft_of a1 r1) \<and> plain_bucket (draft_of a3 r3)
          \<and> read_array (inventory_file w) = JArray inventory
          \<and> (CI e \<longrightarrow> git_ok e) \<and> read_array (decisions_file w) = JArray logs \<longrightarrow>
         fst ?run = Completed
         \<and> decisions_file (snd ?run) = Stored (JArray (logs @ [logEntry e obs opps [a1, a2, a3] ?drafts]))
         \<and> length (log_selected (logEntry e obs opps [a1, a2, a3] ?drafts)) = 3
         \<and> length (log_produced (logEntry e obs opps [a1, a2, a3] ?drafts)) = 2"
  proof
    assume a: "plain_bucket (draft_of a1 r1) \<and> plain_bucket (draft_of a3 r3)
          \<and> read_array (inventory_file w) = JArray inventory
          \<and> (CI e \<longrightarrow> git_ok e) \<and> read_array (decisions_file w) = JArray logs"
    then have pl: "list_all plain_bucket ?drafts" and ra: "read_array (inventory_file w) = JArray inventory"
      and git: "CI e \<longrightarrow> git_ok e" and rd: "read_array (decisions_file w) = JArray logs"
      by simp_all
    have ret: "fst (submit ?drafts e w) = Inr ()"
      using submit_array(1) [OF pl ra, of e] git by simp
    have dec: "read_array (decisions_file (snd (submit ?drafts e w))) = JArray logs"
      using submit_array(3) [OF pl ra, of e] rd by simp
    have p: "?run =
       (Completed,
        write_decisions (logs @ [logEntry e obs opps [a1, a2, a3] ?drafts]) (snd (submit ?drafts e w)))"
      by (rule produce_completed [OF c ne ret dec])
    show "fst ?run = Completed
         \<and> decisions_file (snd ?run) = Stored (JArray (logs @ [logEntry e obs opps [a1, a2, a3] ?drafts]))
         \<and> length (log_selected (logEntry e obs opps [a1, a2, a3] ?drafts)) = 3
         \<and> length (log_produced (logEntry e obs opps [a1, a2, a3] ?drafts)) = 2"
      by (simp add: p logEntry_def)
  qed
  from c inv log show ?thesis
    by (intro conjI)
qed

text \<open>The theorem at three assignments of distinct slugs, a generator failing on the
  second, and neither an inventory nor a decisions file.\<close>

theorem second_of_three_fails_witness:
  "create_all (test_env [] (failing_on ''t1'')) three_assignments [] =
     [draft_of (opp ''e1'' ''educational'' 0.9) (''About e1'', 900),
      draft_of (opp ''a1'' ''affiliate'' 0.7) (''About a1'', 900)]
   \<and> inventory_file (snd (produce (test_env [] (failing_on ''t1'')) no_observations three_assignments
       three_assignments empty_world)) =
     Stored (JArray
       [new_entry ''2026-01-01T00:00:00.000Z'' (draft_of (opp ''e1'' ''educational'' 0.9) (''About e1'', 900)),
        new_entry ''2026-01-01T00:00:00.000Z'' (draft_of (opp ''a1'' ''affiliate'' 0.7) (''About a1'', 900))])
   \<and> fst (produce (test_env [] (failing_on ''t1'')) no_observations three_assignments
       three_assignments empty_world) = Completed
   \<and> decisions_file (snd (produce (test_env [] (failing_on ''t1'')) no_observations three_assignments
       three_assignments empty_world)) =
     Stored (JArray
       [logEntry (test_env [] (failing_on ''t1'')) no_observations three_assignments three_assignments
          [draft_of (opp ''e1'' ''educational'' 0.9) (''About e1'', 900),
           draft_of (opp ''a1'' ''affiliate'' 0.7) (''About a1'', 900)]])"
proof -
  let ?e = "test_env [] (failing_on ''t1'')"
  let ?a1 = "opp ''e1'' ''educational'' 0.9"
  let ?a2 = "opp ''t1'' ''topical'' 0.8"
  let ?a3 = "opp ''a1'' ''affiliate'' 0.7"
  have g: "generator ?e ?a1 = Some (''About e1'', 900)" "generator ?e ?a2 = None"
    "generator ?e ?a3 = Some (''About a1'', 900)"
    by (simp_all add: test_env_def failing_on_def opp_def)
  note t = second_of_three_fails [OF g, of empty_world "[]" no_observations three_assignments "[]"]
  note c1 = t [THEN conjunct1]
  note c2 = t [THEN conjunct2, THEN conjunct1]
  note c3 = t [THEN conjunct2, THEN conjunct2]
  have three: "three_assignments = [?a1, ?a2, ?a3]"
    by (simp add: three_assignments_def)
  have p2: "plain_bucket (draft_of ?a1 (''About e1'', 900)) \<and> plain_bucket (draft_of ?a3 (''About a1'', 900))
      \<and> read_array (inventory_file empty_world) = JArray []"
    by code_simp
  have p3: "plain_bucket (draft_of ?a1 (''About e1'', 900)) \<and> plain_bucket (draft_of ?a3 (''About a1'', 900))
      \<and> read_array (inventory_file empty_world) = JArray []
      \<and> (CI ?e \<longrightarrow> git_ok ?e) \<and> read_array (decisions_file empty_world) = JArray []"
    by code_simp
  have v: "add_articles (now ?e) [] [draft_of ?a1 (''About e1'', 900), draft_of ?a3 (''About a1'', 900)] =
      [new_entry ''2026-01-01T00:00:00.000Z'' (draft_of ?a1 (''About e1'', 900)),
       new_entry ''2026-01-01T00:00:00.000Z'' (draft_of ?a3 (''About a1'', 900))]"
    by code_simp
  have 1: "create_all ?e three_assignments [] =
      [draft_of ?a1 (''About e1'', 900), draft_of ?a3 (''About a1'', 900)]"
    using c1 by (simp only: three)
  have 2: "inventory_file (snd (produce ?e no_observations three_assignments three_assignments empty_world)) =
     Stored (JArray
       [new_entry ''2026-01-01T00:00:00.000Z'' (draft_of ?a1 (''About e1'', 900)),
        new_entry ''2026-01-01T00:00:00.000Z'' (draft_of ?a3 (''About a1'', 900))])"
    using mp [OF c2 p2, THEN conjunct1] by (simp only: three v)
  have 3: "fst (produce ?e no_observations three_assignments three_assignments empty_world) = Completed"
    using mp [OF c3 p3, THEN conjunct1] by (simp only: three)
  have 4: "decisions_file (snd (produce ?e no_observations three_assignments three_assignments empty_world)) =
     Stored (JArray
       [logEntry ?e no_observations three_assignments three_assignments
          [draft_of ?a1 (''About e1'', 900), draft_of ?a3 (''About a1'', 900)]])"
    using mp [OF c3 p3, THEN conjunct2, THEN conjunct1] by (simp only: three append_Nil)
  from 1 2 3 4 show ?thesis
    by (intro conjI)
qed

text \<open>
  Claim C2 as stated fails. The inventory holds the slug \<open>e1\<close>; generation throws for
  the second of the assignments \<open>e1\<close>, \<open>t1\<close>, \<open>a1\<close>; two drafts are produced, the run
  completes, and one entry is added, for \<open>a1\<close>. The log entry lists the three selected
  assignments and the two produced drafts.
\<close>

theorem one_entry_when_slug_in_ledger:
  "inventory_file (snd (produce (test_env [] (failing_on ''t1'')) no_observations three_assignments
       three_assignments ledger_world)) =
     Stored (JArray
       [new_entry ''2025-12-01T00:00:00.000Z'' (draft ''e1'' ''educational''),
        new_entry ''2026-01-01T00:00:00.000Z'' (draft_of (opp ''a1'' ''affiliate'' 0.7) (''About a1'', 900))])
   \<and> inventory_file ledger_world =
       Stored (JArray [new_entry ''2025-12-01T00:00:00.000Z'' (draft ''e1'' ''educational'')])
   \<and> create_all (test_env [] (failing_on ''t1'')) three_assignments [] =
     [draft_of (opp ''e1'' ''educational'' 0.9) (''About e1'', 900),
      draft_of (opp ''a1'' ''affiliate'' 0.7) (''About a1'', 900)]
   \<and> fst (produce (test_env [] (failing_on ''t1'')) no_observations three_assignments
       three_assignments ledger_world) = Completed"
  by code_simp

end
